theory Spec2Isabelle
  imports Main "HOL-Library.Word" "HOL-Library.AList" "HOL-Library.Multiset"
begin

unbundle bit_operations_syntax

section \<open>Kernel side: bpf/conntracer_streaming.bpf.c\<close>

type_synonym u8 = "8 word"
type_synonym u16 = "16 word"
type_synonym u32 = "32 word"
type_synonym u64 = "64 word"

subsection \<open>Constants and structs of the headers\<close>

text \<open>
  Modelled from the spec: \<^verbatim>\<open>enum flow_direction\<close> of conntracer.h is not among the
  sources. The spec gives a three-valued tag UNKNOWN, ACTIVE, PASSIVE; the numbering is
  that of the Go constants of tracer.go (\<^verbatim>\<open>iota + 1\<close>), which \<^verbatim>\<open>flowDirectionFrom\<close>
  maps the C enumerators to one by one. The probes store the tag in a \<^verbatim>\<open>__u8\<close>.
\<close>

definition FLOW_UNKNOWN :: u8 where "FLOW_UNKNOWN = 1"
definition FLOW_ACTIVE :: u8 where "FLOW_ACTIVE = 2"
definition FLOW_PASSIVE :: u8 where "FLOW_PASSIVE = 3"

text \<open>\<^verbatim>\<open>IPPROTO_TCP\<close> and \<^verbatim>\<open>IPPROTO_UDP\<close> of vmlinux.h (the IANA protocol numbers).\<close>

definition IPPROTO_TCP :: u8 where "IPPROTO_TCP = 6"
definition IPPROTO_UDP :: u8 where "IPPROTO_UDP = 17"

text \<open>
  The fields of \<^verbatim>\<open>struct sock\<close> that the probes read, all in \<^verbatim>\<open>__sk_common\<close>. The kernel
  keeps \<^verbatim>\<open>skc_dport\<close> in network byte order and \<^verbatim>\<open>skc_num\<close> in host byte order.
\<close>

record sock =
  skc_rcv_saddr :: u32
  skc_daddr :: u32
  skc_dport :: u16
  skc_num :: u16

record flowi4 =
  saddr :: u32
  daddr :: u32

record udphdr =
  source :: u16
  dest :: u16

record iphdr =
  saddr :: u32
  daddr :: u32

text \<open>
  \<^verbatim>\<open>struct ipv4_flow_key\<close> and \<^verbatim>\<open>struct flow\<close>. Their declarations are in the headers
  conntracer.h and port_binding.h, which are not among the sources; the fields are those
  that the probes assign, with the widths of the values assigned.
\<close>

record ipv4_flow_key =
  saddr :: u32
  daddr :: u32
  lport :: u16
  direction :: u8
  l4_proto :: u8

record flow =
  ts_us :: u64
  saddr :: u32
  daddr :: u32
  lport :: u16
  pid :: u32
  direction :: u8
  l4_proto :: u8
  task :: "u8 list"

text \<open>\<^verbatim>\<open>struct ipv4_flow_key flow_key = {}\<close>: every field zero.\<close>

definition ipv4_flow_key_zero :: ipv4_flow_key where
  "ipv4_flow_key_zero =
     \<lparr>ipv4_flow_key.saddr = 0, ipv4_flow_key.daddr = 0, ipv4_flow_key.lport = 0,
      ipv4_flow_key.direction = 0, ipv4_flow_key.l4_proto = 0\<rparr>"

subsection \<open>Byte order\<close>

text \<open>
  \<^verbatim>\<open>bpf_htons\<close> of bpf_endian.h swaps the two bytes on a little-endian target and is the
  identity on a big-endian one; \<^verbatim>\<open>-target bpf\<close> takes the byte order of the build host.
\<close>

datatype byte_order = LittleEndian | BigEndian

definition bswap16 :: "u16 \<Rightarrow> u16" where
  "bswap16 x = (push_bit 8 x) OR (drop_bit 8 x)"

definition bpf_htons :: "byte_order \<Rightarrow> u16 \<Rightarrow> u16" where
  "bpf_htons bo x = (case bo of LittleEndian \<Rightarrow> bswap16 x | BigEndian \<Rightarrow> x)"

definition bpf_ntohs :: "byte_order \<Rightarrow> u16 \<Rightarrow> u16" where
  "bpf_ntohs bo x = (case bo of LittleEndian \<Rightarrow> bswap16 x | BigEndian \<Rightarrow> x)"

subsection \<open>What a probe sees of the kernel\<close>

text \<open>
  The helpers' results at one probe invocation. \<open>ringbuf_reserve\<close> is the result of
  \<^verbatim>\<open>bpf_ringbuf_reserve\<close>: \<open>None\<close> when the ring buffer has no room, otherwise the reserved
  record with whatever the memory held before (the helper does not clear it). The
  \<open>_at\<close> fields are the kernel memory behind a pointer; \<open>None\<close> is a pointer that cannot
  be read.
\<close>

record probe_ctx =
  current_pid_tgid :: u64
  ktime_get_ns :: u64
  current_comm :: "u8 list"
  ringbuf_reserve :: "flow option"
  sock_at :: "u64 \<Rightarrow> sock option"
  flowi4_at :: "u64 \<Rightarrow> flowi4 option"
  udphdr_at :: "u64 \<Rightarrow> udphdr option"
  iphdr_at :: "u64 \<Rightarrow> iphdr option"

text \<open>
  \<^verbatim>\<open>BPF_CORE_READ\<close> and \<^verbatim>\<open>BPF_CORE_READ_INTO\<close>: a probe read that fails leaves zero in the
  destination.
\<close>

definition core_read :: "('p \<Rightarrow> 's option) \<Rightarrow> 'p \<Rightarrow> ('s \<Rightarrow> 'a::zero) \<Rightarrow> 'a" where
  "core_read mem p fld = (case mem p of None \<Rightarrow> 0 | Some s \<Rightarrow> fld s)"

text \<open>
  The maps of the object. A hash map is an association list with distinct keys; the ring
  buffer \<open>flows\<close> is the list of the submitted records, oldest first.
\<close>

record bpf_maps =
  tcp_connect_sockets :: "(u32 \<times> u64) list"
  udp_port_binding :: "(u16 \<times> u8) list"
  flows :: "flow list"

definition bpf_map_lookup_elem :: "('k \<times> 'v) list \<Rightarrow> 'k \<Rightarrow> 'v option" where
  "bpf_map_lookup_elem m k = map_of m k"

text \<open>\<^verbatim>\<open>BPF_ANY\<close> on a hash map of \<open>max_entries\<close> slots: a new key is refused when the map is full.\<close>

definition bpf_map_update_elem :: "nat \<Rightarrow> ('k \<times> 'v) list \<Rightarrow> 'k \<Rightarrow> 'v \<Rightarrow> ('k \<times> 'v) list" where
  "bpf_map_update_elem max_entries m k v =
     (if map_of m k \<noteq> None \<or> length m < max_entries then AList.update k v m else m)"

definition bpf_map_delete_elem :: "('k \<times> 'v) list \<Rightarrow> 'k \<Rightarrow> ('k \<times> 'v) list" where
  "bpf_map_delete_elem m k = AList.delete k m"

subsection \<open>The probes\<close>

definition insert_flows :: "probe_ctx \<Rightarrow> u32 \<Rightarrow> u64 \<Rightarrow> u16 \<Rightarrow> u8 \<Rightarrow> bpf_maps \<Rightarrow> bpf_maps" where
  "insert_flows ctx pid_arg sk lport_arg direction_arg st =
     (case ringbuf_reserve ctx of
        None \<Rightarrow> st
      | Some slot \<Rightarrow>
          st\<lparr>flows := flows st @
            [slot\<lparr>flow.ts_us := ktime_get_ns ctx div 1000,
                  flow.saddr := core_read (sock_at ctx) sk skc_rcv_saddr,
                  flow.daddr := core_read (sock_at ctx) sk skc_daddr,
                  flow.lport := lport_arg,
                  flow.pid := pid_arg,
                  flow.direction := direction_arg,
                  flow.task := current_comm ctx\<rparr>]\<rparr>)"

definition insert_udp_flows :: "probe_ctx \<Rightarrow> u32 \<Rightarrow> ipv4_flow_key \<Rightarrow> bpf_maps \<Rightarrow> bpf_maps" where
  "insert_udp_flows ctx pid_arg flow_key st =
     (case ringbuf_reserve ctx of
        None \<Rightarrow> st
      | Some slot \<Rightarrow>
          st\<lparr>flows := flows st @
            [slot\<lparr>flow.ts_us := ktime_get_ns ctx div 1000,
                  flow.saddr := ipv4_flow_key.saddr flow_key,
                  flow.daddr := ipv4_flow_key.daddr flow_key,
                  flow.lport := ipv4_flow_key.lport flow_key,
                  flow.direction := ipv4_flow_key.direction flow_key,
                  flow.l4_proto := ipv4_flow_key.l4_proto flow_key,
                  flow.pid := pid_arg,
                  flow.task := current_comm ctx\<rparr>]\<rparr>)"

text \<open>\<^verbatim>\<open>pid = pid_tgid >> 32\<close> and \<^verbatim>\<open>tid = pid_tgid\<close>, both truncated to 32 bits.\<close>

definition pid_of :: "probe_ctx \<Rightarrow> u32" where
  "pid_of ctx = ucast (drop_bit 32 (current_pid_tgid ctx))"

definition tid_of :: "probe_ctx \<Rightarrow> u32" where
  "tid_of ctx = ucast (current_pid_tgid ctx)"

text \<open>\<open>max_entries\<close> is \<^verbatim>\<open>MAX_ENTRIES\<close> of conntracer.h, which is not among the sources.\<close>

definition tcp_v4_connect :: "nat \<Rightarrow> probe_ctx \<Rightarrow> u64 \<Rightarrow> bpf_maps \<Rightarrow> bpf_maps" where
  "tcp_v4_connect max_entries ctx sk st =
     st\<lparr>tcp_connect_sockets :=
          bpf_map_update_elem max_entries (tcp_connect_sockets st) (tid_of ctx) sk\<rparr>"

definition tcp_v4_connect_ret :: "probe_ctx \<Rightarrow> u32 \<Rightarrow> bpf_maps \<Rightarrow> bpf_maps" where
  "tcp_v4_connect_ret ctx ret st =
     (case bpf_map_lookup_elem (tcp_connect_sockets st) (tid_of ctx) of
        None \<Rightarrow> st
      | Some sk \<Rightarrow>
          (let st1 = (if ret \<noteq> 0 then st
                      else insert_flows ctx (pid_of ctx) sk
                             (core_read (sock_at ctx) sk skc_dport) FLOW_ACTIVE st)
           in st1\<lparr>tcp_connect_sockets :=
                    bpf_map_delete_elem (tcp_connect_sockets st1) (tid_of ctx)\<rparr>))"

definition inet_csk_accept_ret :: "probe_ctx \<Rightarrow> u64 \<Rightarrow> bpf_maps \<Rightarrow> bpf_maps" where
  "inet_csk_accept_ret ctx sk st =
     (if sk = 0 then st
      else insert_flows ctx (pid_of ctx) sk
             (core_read (sock_at ctx) sk skc_num) FLOW_PASSIVE st)"

definition ip_make_skb :: "byte_order \<Rightarrow> probe_ctx \<Rightarrow> u64 \<Rightarrow> u64 \<Rightarrow> bpf_maps \<Rightarrow> bpf_maps" where
  "ip_make_skb bo ctx sk flw4 st =
     (let sport = core_read (sock_at ctx) sk skc_num;
          dport = core_read (sock_at ctx) sk skc_dport;
          flow_key =
            (case bpf_map_lookup_elem (udp_port_binding st) sport of
               Some sstate \<Rightarrow>
                 ipv4_flow_key_zero
                   \<lparr>ipv4_flow_key.saddr := core_read (flowi4_at ctx) flw4 flowi4.daddr,
                    ipv4_flow_key.daddr := core_read (flowi4_at ctx) flw4 flowi4.saddr,
                    ipv4_flow_key.direction := FLOW_PASSIVE,
                    ipv4_flow_key.lport := bpf_htons bo sport\<rparr>
             | None \<Rightarrow>
                 ipv4_flow_key_zero
                   \<lparr>ipv4_flow_key.saddr := core_read (flowi4_at ctx) flw4 flowi4.saddr,
                    ipv4_flow_key.daddr := core_read (flowi4_at ctx) flw4 flowi4.daddr,
                    ipv4_flow_key.direction := FLOW_ACTIVE,
                    ipv4_flow_key.lport := dport\<rparr>)
      in insert_udp_flows ctx (pid_of ctx)
           (flow_key\<lparr>ipv4_flow_key.l4_proto := IPPROTO_UDP\<rparr>) st)"

text \<open>
  \<open>skb\<close> stands for the two header pointers computed from it: \<open>udphdr_at ctx skb\<close> is the
  header at \<^verbatim>\<open>head + transport_header\<close>, \<open>iphdr_at ctx skb\<close> the one at
  \<^verbatim>\<open>head + network_header\<close>.
\<close>

definition skb_consume_udp :: "byte_order \<Rightarrow> probe_ctx \<Rightarrow> u64 \<Rightarrow> u64 \<Rightarrow> bpf_maps \<Rightarrow> bpf_maps" where
  "skb_consume_udp bo ctx sk skb st =
     (let sport = core_read (udphdr_at ctx) skb source;
          dport = core_read (udphdr_at ctx) skb dest;
          dport_key = bpf_htons bo dport;
          flow_key =
            (case bpf_map_lookup_elem (udp_port_binding st) dport_key of
               Some sstate \<Rightarrow>
                 ipv4_flow_key_zero
                   \<lparr>ipv4_flow_key.saddr := core_read (iphdr_at ctx) skb iphdr.saddr,
                    ipv4_flow_key.daddr := core_read (iphdr_at ctx) skb iphdr.daddr,
                    ipv4_flow_key.direction := FLOW_PASSIVE,
                    ipv4_flow_key.lport := dport\<rparr>
             | None \<Rightarrow>
                 ipv4_flow_key_zero
                   \<lparr>ipv4_flow_key.saddr := core_read (iphdr_at ctx) skb iphdr.daddr,
                    ipv4_flow_key.daddr := core_read (iphdr_at ctx) skb iphdr.saddr,
                    ipv4_flow_key.direction := FLOW_ACTIVE,
                    ipv4_flow_key.lport := sport\<rparr>)
      in insert_udp_flows ctx (pid_of ctx)
           (flow_key\<lparr>ipv4_flow_key.l4_proto := IPPROTO_UDP\<rparr>) st)"

subsection \<open>Probe invocations and what they emit\<close>

text \<open>The records a probe submitted: those of the ring buffer after it that were not there before.\<close>

definition emitted :: "bpf_maps \<Rightarrow> bpf_maps \<Rightarrow> flow list" where
  "emitted st st' = drop (length (flows st)) (flows st')"

datatype tcp_probe =
    Tcp_v4_connect u64
  | Tcp_v4_connect_ret u32
  | Inet_csk_accept_ret u64

fun run_tcp_probe :: "nat \<Rightarrow> probe_ctx \<Rightarrow> tcp_probe \<Rightarrow> bpf_maps \<Rightarrow> bpf_maps" where
  "run_tcp_probe max_entries ctx (Tcp_v4_connect sk) st = tcp_v4_connect max_entries ctx sk st"
| "run_tcp_probe max_entries ctx (Tcp_v4_connect_ret ret) st = tcp_v4_connect_ret ctx ret st"
| "run_tcp_probe max_entries ctx (Inet_csk_accept_ret sk) st = inet_csk_accept_ret ctx sk st"

fun is_connect_ret :: "tcp_probe \<Rightarrow> bool" where
  "is_connect_ret (Tcp_v4_connect_ret ret) = True"
| "is_connect_ret p = False"

fun is_accept_ret :: "tcp_probe \<Rightarrow> bool" where
  "is_accept_ret (Inet_csk_accept_ret sk) = True"
| "is_accept_ret p = False"

datatype udp_probe =
    Ip_make_skb u64 u64
  | Skb_consume_udp u64 u64

fun run_udp_probe :: "byte_order \<Rightarrow> probe_ctx \<Rightarrow> udp_probe \<Rightarrow> bpf_maps \<Rightarrow> bpf_maps" where
  "run_udp_probe bo ctx (Ip_make_skb sk flw4) st = ip_make_skb bo ctx sk flw4 st"
| "run_udp_probe bo ctx (Skb_consume_udp sk skb) st = skb_consume_udp bo ctx sk skb st"

text \<open>
  The port numbers of a flow, in host byte order. On the send path both come from the
  socket, on the receive path from the UDP header of the datagram, whose destination is
  the local side.
\<close>

fun udp_local_port :: "byte_order \<Rightarrow> probe_ctx \<Rightarrow> udp_probe \<Rightarrow> u16" where
  "udp_local_port bo ctx (Ip_make_skb sk flw4) = core_read (sock_at ctx) sk skc_num"
| "udp_local_port bo ctx (Skb_consume_udp sk skb) =
     bpf_ntohs bo (core_read (udphdr_at ctx) skb dest)"

fun udp_remote_port :: "byte_order \<Rightarrow> probe_ctx \<Rightarrow> udp_probe \<Rightarrow> u16" where
  "udp_remote_port bo ctx (Ip_make_skb sk flw4) =
     bpf_ntohs bo (core_read (sock_at ctx) sk skc_dport)"
| "udp_remote_port bo ctx (Skb_consume_udp sk skb) =
     bpf_ntohs bo (core_read (udphdr_at ctx) skb source)"

definition sock_local_port :: "probe_ctx \<Rightarrow> u64 \<Rightarrow> u16" where
  "sock_local_port ctx sk = core_read (sock_at ctx) sk skc_num"

definition sock_remote_port :: "byte_order \<Rightarrow> probe_ctx \<Rightarrow> u64 \<Rightarrow> u16" where
  "sock_remote_port bo ctx sk = bpf_ntohs bo (core_read (sock_at ctx) sk skc_dport)"

text \<open>
  The socket a TCP probe is about: its argument, or for the return of \<^verbatim>\<open>tcp_v4_connect\<close>
  the socket stored under the thread (no record is emitted when there is none).
\<close>

fun tcp_probe_sock :: "probe_ctx \<Rightarrow> bpf_maps \<Rightarrow> tcp_probe \<Rightarrow> u64" where
  "tcp_probe_sock ctx st (Tcp_v4_connect sk) = sk"
| "tcp_probe_sock ctx st (Tcp_v4_connect_ret ret) =
     (case bpf_map_lookup_elem (tcp_connect_sockets st) (tid_of ctx) of
        None \<Rightarrow> 0
      | Some sk \<Rightarrow> sk)"
| "tcp_probe_sock ctx st (Inet_csk_accept_ret sk) = sk"

section \<open>Userspace, aggregating tracer: tracer.go\<close>

subsection \<open>Types\<close>

definition FlowUnknown :: u8 where "FlowUnknown = 0 + 1"
definition FlowActive :: u8 where "FlowActive = 1 + 1"
definition FlowPassive :: u8 where "FlowPassive = 2 + 1"

definition flowDirectionFrom :: "u8 \<Rightarrow> u8" where
  "flowDirectionFrom x =
     (if x = FLOW_UNKNOWN then FlowUnknown
      else if x = FLOW_ACTIVE then FlowActive
      else if x = FLOW_PASSIVE then FlowPassive
      else FlowUnknown)"

text \<open>\<^verbatim>\<open>AggrFlowTuple\<close>, the key of both maps; its fields are listed in tracer.go.\<close>

record aggregated_flow_tuple =
  saddr :: u32
  daddr :: u32
  lport :: u16
  direction :: u8
  l4_proto :: u8

text \<open>The values of the two maps, with the fields the decoders read.\<close>

record aggregated_flow =
  saddr :: u32
  daddr :: u32
  task :: "u8 list"
  lport :: u16
  direction :: u8
  l4_proto :: u8
  pid :: u32

record aggregated_flow_stat =
  ts_us :: u64
  sent_bytes :: u64
  recv_bytes :: u64

text \<open>
  \<^verbatim>\<open>time.Time\<close>: the zero value of the type, or the result of \<^verbatim>\<open>time.Unix(sec, 0)\<close> with
  its \<^verbatim>\<open>int64\<close> argument.
\<close>

datatype go_time = Time_zero | Time_Unix u64

record AggrFlowStat =
  Timestamp :: go_time
  sentBytes :: u64
  recvBytes :: u64

text \<open>\<^verbatim>\<open>Flow\<close>. The pointer \<^verbatim>\<open>Stat\<close> is \<open>None\<close> while it is nil.\<close>

record Flow =
  SAddr :: "u8 list"
  DAddr :: "u8 list"
  ProcessName :: "u8 list"
  LPort :: u16
  Direction :: u8
  LastPID :: u32
  L4Proto :: u8
  Stat :: "AggrFlowStat option"

text \<open>\<^verbatim>\<open>&AggrFlowStat{}\<close>: every field at its zero value.\<close>

definition AggrFlowStat_zero :: AggrFlowStat where
  "AggrFlowStat_zero = \<lparr>Timestamp = Time_zero, sentBytes = 0, recvBytes = 0\<rparr>"

datatype go_error = Errno_error int | Errorf_polling_ring_buffer u32

text \<open>
  A Go map is an association list with distinct keys: storing under a key that is there
  replaces its value. The order in which \<^verbatim>\<open>range\<close> visits the entries is not that of the
  list: see \<open>range_order\<close> below.
\<close>

type_synonym 'v go_map = "(aggregated_flow_tuple \<times> 'v) list"

subsection \<open>Decoding the drained entries\<close>

text \<open>
  \<^verbatim>\<open>C.GoString\<close>: the bytes before the first NUL. The field it is applied to always holds
  one, since \<^verbatim>\<open>bpf_get_current_comm\<close> writes a terminated name; on a field without a NUL the C
  function would read on past the end, which the list cannot show.
\<close>

definition GoString :: "u8 list \<Rightarrow> u8 list" where
  "GoString bs = takeWhile (\<lambda>b. b \<noteq> 0) bs"

text \<open>
  The helpers \<^verbatim>\<open>inetNtop\<close> and \<^verbatim>\<open>ntohs\<close> of the package are not among the sources; the
  decoder takes them as parameters.
\<close>

definition flow_of_value ::
  "(u32 \<Rightarrow> u8 list) \<Rightarrow> (u16 \<Rightarrow> u16) \<Rightarrow> aggregated_flow \<Rightarrow> Flow" where
  "flow_of_value inetNtop ntohs v =
     \<lparr>SAddr = inetNtop (aggregated_flow.saddr v),
      DAddr = inetNtop (aggregated_flow.daddr v),
      ProcessName = GoString (aggregated_flow.task v),
      LPort = aggregated_flow.lport v,
      Direction = flowDirectionFrom (aggregated_flow.direction v),
      LastPID = aggregated_flow.pid v,
      L4Proto = ucast (ntohs (ucast (aggregated_flow.l4_proto v))),
      Stat = None\<rparr>"

definition stat_of_value :: "aggregated_flow_stat \<Rightarrow> AggrFlowStat" where
  "stat_of_value stat =
     \<lparr>Timestamp = Time_Unix (aggregated_flow_stat.ts_us stat * 1000 * 1000),
      sentBytes = sent_bytes stat,
      recvBytes = recv_bytes stat\<rparr>"

text \<open>
  \<^verbatim>\<open>dumpBpfMap\<close> is not among the sources. Its result is taken as given: an error, or the
  \<^verbatim>\<open>nRead\<close> entries it wrote to the front of \<^verbatim>\<open>keys\<close> and \<^verbatim>\<open>values\<close>, in that order. The same
  key can come twice, when the kernel stores it again between two batches.
\<close>

fun dumpAggrFlows_loop ::
  "(u32 \<Rightarrow> u8 list) \<Rightarrow> (u16 \<Rightarrow> u16) \<Rightarrow> (aggregated_flow_tuple \<times> aggregated_flow) list \<Rightarrow>
   Flow go_map \<Rightarrow> Flow go_map" where
  "dumpAggrFlows_loop inetNtop ntohs [] m = m"
| "dumpAggrFlows_loop inetNtop ntohs ((tuple, v) # rest) m =
     dumpAggrFlows_loop inetNtop ntohs rest
       (AList.update tuple (flow_of_value inetNtop ntohs v) m)"

definition dumpAggrFlows ::
  "(u32 \<Rightarrow> u8 list) \<Rightarrow> (u16 \<Rightarrow> u16) \<Rightarrow>
   go_error + (aggregated_flow_tuple \<times> aggregated_flow) list \<Rightarrow> go_error + Flow go_map" where
  "dumpAggrFlows inetNtop ntohs dumped =
     (case dumped of
        Inl err \<Rightarrow> Inl err
      | Inr entries \<Rightarrow> Inr (dumpAggrFlows_loop inetNtop ntohs entries []))"

fun dumpAggrFlowStats_loop ::
  "(aggregated_flow_tuple \<times> aggregated_flow_stat) list \<Rightarrow> AggrFlowStat go_map \<Rightarrow>
   AggrFlowStat go_map" where
  "dumpAggrFlowStats_loop [] m = m"
| "dumpAggrFlowStats_loop ((tuple, stat) # rest) m =
     dumpAggrFlowStats_loop rest (AList.update tuple (stat_of_value stat) m)"

definition dumpAggrFlowStats ::
  "go_error + (aggregated_flow_tuple \<times> aggregated_flow_stat) list \<Rightarrow>
   go_error + AggrFlowStat go_map" where
  "dumpAggrFlowStats dumped =
     (case dumped of
        Inl err \<Rightarrow> Inl err
      | Inr entries \<Rightarrow> Inr (dumpAggrFlowStats_loop entries []))"

subsection \<open>DumpFlows\<close>

text \<open>The loop that merges the two maps; \<open>entries\<close> are those of the flow map as \<^verbatim>\<open>range\<close> visits them.\<close>

fun merge_loop :: "Flow go_map \<Rightarrow> AggrFlowStat go_map \<Rightarrow> Flow list \<Rightarrow> Flow list" where
  "merge_loop [] stats merged = merged"
| "merge_loop ((t, flow) # entries) stats merged =
     merge_loop entries stats
       (merged @
        [(case map_of stats t of
            Some v \<Rightarrow> flow\<lparr>Stat := Some v\<rparr>
          | None \<Rightarrow> flow\<lparr>Stat := Some AggrFlowStat_zero\<rparr>)])"

text \<open>What one round of that loop appends: the flow with its statistics, or with zeroed ones.\<close>

definition joined :: "AggrFlowStat go_map \<Rightarrow> aggregated_flow_tuple \<Rightarrow> Flow \<Rightarrow> Flow" where
  "joined stats t fl =
     fl\<lparr>Stat := Some (case map_of stats t of Some v \<Rightarrow> v | None \<Rightarrow> AggrFlowStat_zero)\<rparr>"

text \<open>
  The two drainers run in an \<^verbatim>\<open>errgroup\<close>, whose \<^verbatim>\<open>Wait\<close> returns the first error that was
  returned; \<open>stats_first\<close> says that the drainer of the statistics failed first when both
  fail. \<open>range_order\<close> is the order that \<^verbatim>\<open>range\<close> picks for the flow map, which Go leaves
  unspecified.
\<close>

definition DumpFlows ::
  "(u32 \<Rightarrow> u8 list) \<Rightarrow> (u16 \<Rightarrow> u16) \<Rightarrow> (Flow go_map \<Rightarrow> Flow go_map) \<Rightarrow> bool \<Rightarrow>
   go_error + (aggregated_flow_tuple \<times> aggregated_flow) list \<Rightarrow>
   go_error + (aggregated_flow_tuple \<times> aggregated_flow_stat) list \<Rightarrow>
   go_error + Flow list" where
  "DumpFlows inetNtop ntohs range_order stats_first flows_dumped stats_dumped =
     (case dumpAggrFlows inetNtop ntohs flows_dumped of
        Inl err1 \<Rightarrow>
          (case dumpAggrFlowStats stats_dumped of
             Inl err2 \<Rightarrow> Inl (if stats_first then err2 else err1)
           | Inr statsMap \<Rightarrow> Inl err1)
      | Inr flowsMap \<Rightarrow>
          (case dumpAggrFlowStats stats_dumped of
             Inl err2 \<Rightarrow> Inl err2
           | Inr statsMap \<Rightarrow> Inr (merge_loop (range_order flowsMap) statsMap [])))"

subsection \<open>pollFlows\<close>

text \<open>
  What the \<^verbatim>\<open>select\<close> of the loop receives, in order: something on the stop channel (a
  value sent by \<^verbatim>\<open>Stop\<close>, or the end of the channel after \<^verbatim>\<open>Close\<close>), or a tick, with what
  the two drainers find at that tick.
\<close>

datatype poll_event =
    StopChan_recv
  | Tick_recv bool "go_error + (aggregated_flow_tuple \<times> aggregated_flow) list"
      "go_error + (aggregated_flow_tuple \<times> aggregated_flow_stat) list"

datatype poll_out = Log_Println go_error | Cb_call "Flow list"

text \<open>
  The callback has a state of its own, \<open>c\<close>. The result says whether the loop returned
  (it is still waiting in \<^verbatim>\<open>select\<close> when the events run out), and lists what it logged and
  passed to the callback. The slice that \<^verbatim>\<open>DumpFlows\<close> returns with an error is nil.
\<close>

fun pollFlows ::
  "(u32 \<Rightarrow> u8 list) \<Rightarrow> (u16 \<Rightarrow> u16) \<Rightarrow> (Flow go_map \<Rightarrow> Flow go_map) \<Rightarrow>
   ('c \<Rightarrow> Flow list \<Rightarrow> 'c \<times> go_error option) \<Rightarrow> 'c \<Rightarrow> poll_event list \<Rightarrow>
   bool \<times> 'c \<times> poll_out list" where
  "pollFlows inetNtop ntohs range_order cb c [] = (False, c, [])"
| "pollFlows inetNtop ntohs range_order cb c (StopChan_recv # evs) = (True, c, [])"
| "pollFlows inetNtop ntohs range_order cb c (Tick_recv stats_first fd sd # evs) =
     (case DumpFlows inetNtop ntohs range_order stats_first fd sd of
        Inl err \<Rightarrow>
          (case cb c [] of
             (c1, Some cerr) \<Rightarrow>
               (case pollFlows inetNtop ntohs range_order cb c1 evs of
                  (returned, c2, out) \<Rightarrow>
                    (returned, c2, Log_Println err # Cb_call [] # Log_Println cerr # out))
           | (c1, None) \<Rightarrow>
               (case pollFlows inetNtop ntohs range_order cb c1 evs of
                  (returned, c2, out) \<Rightarrow>
                    (returned, c2, Log_Println err # Cb_call [] # out)))
      | Inr fl \<Rightarrow>
          (case cb c fl of
             (c1, Some cerr) \<Rightarrow>
               (case pollFlows inetNtop ntohs range_order cb c1 evs of
                  (returned, c2, out) \<Rightarrow>
                    (returned, c2, Cb_call fl # Log_Println cerr # out))
           | (c1, None) \<Rightarrow>
               (case pollFlows inetNtop ntohs range_order cb c1 evs of
                  (returned, c2, out) \<Rightarrow> (returned, c2, Cb_call fl # out))))"

fun callback_args :: "poll_out list \<Rightarrow> Flow list list" where
  "callback_args [] = []"
| "callback_args (Cb_call fl # out) = fl # callback_args out"
| "callback_args (Log_Println err # out) = callback_args out"

fun is_tick :: "poll_event \<Rightarrow> bool" where
  "is_tick StopChan_recv = False"
| "is_tick (Tick_recv stats_first fd sd) = True"

text \<open>What a tick hands to the callback, and whether its drain failed.\<close>

fun tick_flows ::
  "(u32 \<Rightarrow> u8 list) \<Rightarrow> (u16 \<Rightarrow> u16) \<Rightarrow> (Flow go_map \<Rightarrow> Flow go_map) \<Rightarrow>
   poll_event \<Rightarrow> Flow list" where
  "tick_flows inetNtop ntohs range_order StopChan_recv = []"
| "tick_flows inetNtop ntohs range_order (Tick_recv stats_first fd sd) =
     (case DumpFlows inetNtop ntohs range_order stats_first fd sd of
        Inl err \<Rightarrow> []
      | Inr fl \<Rightarrow> fl)"

fun drain_failed ::
  "(u32 \<Rightarrow> u8 list) \<Rightarrow> (u16 \<Rightarrow> u16) \<Rightarrow> (Flow go_map \<Rightarrow> Flow go_map) \<Rightarrow>
   poll_event \<Rightarrow> bool" where
  "drain_failed inetNtop ntohs range_order StopChan_recv = False"
| "drain_failed inetNtop ntohs range_order (Tick_recv stats_first fd sd) =
     isl (DumpFlows inetNtop ntohs range_order stats_first fd sd)"

section \<open>Userspace, streaming tracer: tracer_streaming.go\<close>

subsection \<open>Start\<close>

text \<open>
  What the \<^verbatim>\<open>select\<close> of \<^verbatim>\<open>Start\<close> receives: the stop signal, or a tick with the \<^verbatim>\<open>C.int\<close> that
  \<^verbatim>\<open>ring_buffer__poll\<close> returns at that tick.
\<close>

datatype start_event = Stop_recv | Tick_poll u32

datatype start_result = Start_waiting | Start_returned "go_error option"

definition EINTR :: u64 where "EINTR = 4"

text \<open>
  \<^verbatim>\<open>syscall.Errno(-n)\<close>: the negation wraps in 32 bits, the conversion to \<^verbatim>\<open>uintptr\<close> extends
  the sign. A \<^verbatim>\<open>break\<close> in a \<^verbatim>\<open>select\<close> leaves the \<^verbatim>\<open>select\<close>, not the \<^verbatim>\<open>for\<close>.
\<close>

fun Start_loop :: "start_event list \<Rightarrow> start_result" where
  "Start_loop [] = Start_waiting"
| "Start_loop (Stop_recv # evs) = Start_returned None"
| "Start_loop (Tick_poll n # evs) =
     (if sint n < 0 then
        (if (scast (- n) :: u64) = EINTR then Start_loop evs
         else Start_returned (Some (Errorf_polling_ring_buffer n)))
      else Start_loop evs)"

text \<open>\<open>init\<close> is the result of \<^verbatim>\<open>initializeUDPPortBindingMap\<close>, which is not among the sources.\<close>

definition Start :: "go_error option \<Rightarrow> start_event list \<Rightarrow> start_result" where
  "Start init evs =
     (case init of Some err \<Rightarrow> Start_returned (Some err) | None \<Rightarrow> Start_loop evs)"

subsection \<open>Close\<close>

datatype chan_state = Chan_open | Chan_closed

record TracerStreaming =
  obj :: u64
  rb :: u64
  stopChan :: chan_state
  statsFd :: int

datatype teardown_op =
    Close_stopChan
  | Syscall_Close int
  | Ring_buffer_free u64
  | Bpf_destroy u64

datatype go_panic = Close_of_closed_channel

text \<open>The operations of \<^verbatim>\<open>Close\<close> in the order it performs them, and the tracer after it.\<close>

definition Close :: "TracerStreaming \<Rightarrow> go_panic + (teardown_op list \<times> TracerStreaming)" where
  "Close t =
     (case stopChan t of
        Chan_closed \<Rightarrow> Inl Close_of_closed_channel
      | Chan_open \<Rightarrow>
          Inr ([Close_stopChan]
               @ (if statsFd t \<noteq> 0 then [Syscall_Close (statsFd t)] else [])
               @ [Ring_buffer_free (rb t), Bpf_destroy (obj t)],
               t\<lparr>stopChan := Chan_closed\<rparr>))"

text \<open>\<open>precedes x y ops\<close>: \<open>x\<close> occurs in \<open>ops\<close>, and \<open>y\<close> occurs after its first occurrence.\<close>

fun precedes :: "'a \<Rightarrow> 'a \<Rightarrow> 'a list \<Rightarrow> bool" where
  "precedes x y [] = False"
| "precedes x y (e # es) = (if e = x then List.member es y else precedes x y es)"

section \<open>Example inputs\<close>

subsection \<open>Kernel side\<close>

text \<open>
  A socket of 127.0.0.1 with local port 53 and remote port 80 (\<open>0x5000\<close> in network byte
  order, read on a little-endian machine), at address \<open>0x1000\<close>; a \<^verbatim>\<open>flowi4\<close> at \<open>0x2000\<close>;
  a datagram from port 12345 to port 53 at \<open>0x3000\<close>. The thread is 101 of process 100.
  The reserved record is a fresh one, all zero.
\<close>

definition ex_sock :: sock where
  "ex_sock = \<lparr>skc_rcv_saddr = 0x0100007F, skc_daddr = 0x0200007F,
              skc_dport = 0x5000, skc_num = 53\<rparr>"

definition ex_slot :: flow where
  "ex_slot = \<lparr>flow.ts_us = 0, flow.saddr = 0, flow.daddr = 0, flow.lport = 0, flow.pid = 0,
              flow.direction = 0, flow.l4_proto = 0, flow.task = []\<rparr>"

definition ex_ctx :: probe_ctx where
  "ex_ctx =
     \<lparr>current_pid_tgid = 0x0000006400000065, ktime_get_ns = 5000,
      current_comm = [0x63, 0x75, 0x72, 0x6C, 0],
      ringbuf_reserve = Some ex_slot,
      sock_at = (\<lambda>p. if p = 0x1000 then Some ex_sock else None),
      flowi4_at = (\<lambda>p. if p = 0x2000
                        then Some \<lparr>flowi4.saddr = 0x0100007F, flowi4.daddr = 0x0200007F\<rparr>
                        else None),
      udphdr_at = (\<lambda>p. if p = 0x3000 then Some \<lparr>source = 0x3930, dest = 0x3500\<rparr> else None),
      iphdr_at = (\<lambda>p. if p = 0x3000
                       then Some \<lparr>iphdr.saddr = 0x0200007F, iphdr.daddr = 0x0100007F\<rparr>
                       else None)\<rparr>"

text \<open>The maps with a connect in flight on thread 101 and UDP port 53 bound, and without the binding.\<close>

definition ex_maps :: bpf_maps where
  "ex_maps = \<lparr>tcp_connect_sockets = [(0x65, 0x1000)], udp_port_binding = [(53, 1)], flows = []\<rparr>"

definition ex_maps_unbound :: bpf_maps where
  "ex_maps_unbound = \<lparr>tcp_connect_sockets = [(0x65, 0x1000)], udp_port_binding = [], flows = []\<rparr>"

text \<open>The records that the probes emit on these inputs.\<close>

definition ex_tcp_active :: flow where
  "ex_tcp_active =
     \<lparr>flow.ts_us = 5, flow.saddr = 0x0100007F, flow.daddr = 0x0200007F, flow.lport = 0x5000,
      flow.pid = 0x64, flow.direction = 2, flow.l4_proto = 0,
      flow.task = [0x63, 0x75, 0x72, 0x6C, 0]\<rparr>"

definition ex_tcp_passive :: flow where
  "ex_tcp_passive =
     \<lparr>flow.ts_us = 5, flow.saddr = 0x0100007F, flow.daddr = 0x0200007F, flow.lport = 53,
      flow.pid = 0x64, flow.direction = 3, flow.l4_proto = 0,
      flow.task = [0x63, 0x75, 0x72, 0x6C, 0]\<rparr>"

definition ex_udp_send_passive :: flow where
  "ex_udp_send_passive =
     \<lparr>flow.ts_us = 5, flow.saddr = 0x0200007F, flow.daddr = 0x0100007F, flow.lport = 0x3500,
      flow.pid = 0x64, flow.direction = 3, flow.l4_proto = 17,
      flow.task = [0x63, 0x75, 0x72, 0x6C, 0]\<rparr>"

definition ex_udp_recv_active :: flow where
  "ex_udp_recv_active =
     \<lparr>flow.ts_us = 5, flow.saddr = 0x0100007F, flow.daddr = 0x0200007F, flow.lport = 0x3930,
      flow.pid = 0x64, flow.direction = 2, flow.l4_proto = 17,
      flow.task = [0x63, 0x75, 0x72, 0x6C, 0]\<rparr>"

subsection \<open>Userspace\<close>

text \<open>
  The helpers on a little-endian machine: the four bytes of an address, lowest first, and
  the swap of the two bytes of a port.
\<close>

definition ex_inetNtop :: "u32 \<Rightarrow> u8 list" where
  "ex_inetNtop a = [ucast a, ucast (drop_bit 8 a), ucast (drop_bit 16 a), ucast (drop_bit 24 a)]"

definition ex_ntohs :: "u16 \<Rightarrow> u16" where
  "ex_ntohs = bswap16"

text \<open>
  A drain of the flow map that brings the first key twice, and a drain of the statistics
  with an entry under the first key and one under a key that no flow has.
\<close>

definition ex_key1 :: aggregated_flow_tuple where
  "ex_key1 = \<lparr>aggregated_flow_tuple.saddr = 0x0100007F, aggregated_flow_tuple.daddr = 0x0200007F,
              aggregated_flow_tuple.lport = 80, aggregated_flow_tuple.direction = 2,
              aggregated_flow_tuple.l4_proto = 6\<rparr>"

definition ex_key2 :: aggregated_flow_tuple where
  "ex_key2 = \<lparr>aggregated_flow_tuple.saddr = 0x0200007F, aggregated_flow_tuple.daddr = 0x0100007F,
              aggregated_flow_tuple.lport = 53, aggregated_flow_tuple.direction = 3,
              aggregated_flow_tuple.l4_proto = 17\<rparr>"

definition ex_key3 :: aggregated_flow_tuple where
  "ex_key3 = \<lparr>aggregated_flow_tuple.saddr = 0x0100007F, aggregated_flow_tuple.daddr = 0x0300007F,
              aggregated_flow_tuple.lport = 443, aggregated_flow_tuple.direction = 2,
              aggregated_flow_tuple.l4_proto = 6\<rparr>"

definition ex_value1 :: aggregated_flow where
  "ex_value1 = \<lparr>aggregated_flow.saddr = 0x0100007F, aggregated_flow.daddr = 0x0200007F,
                aggregated_flow.task = [0x63, 0x75, 0x72, 0x6C, 0, 0],
                aggregated_flow.lport = 80, aggregated_flow.direction = 2,
                aggregated_flow.l4_proto = 6, aggregated_flow.pid = 100\<rparr>"

definition ex_value1b :: aggregated_flow where
  "ex_value1b = ex_value1\<lparr>aggregated_flow.pid := 101\<rparr>"

definition ex_value2 :: aggregated_flow where
  "ex_value2 = \<lparr>aggregated_flow.saddr = 0x0200007F, aggregated_flow.daddr = 0x0100007F,
                aggregated_flow.task = [0x64, 0x6E, 0x73, 0],
                aggregated_flow.lport = 53, aggregated_flow.direction = 3,
                aggregated_flow.l4_proto = 17, aggregated_flow.pid = 7\<rparr>"

definition ex_stat1 :: aggregated_flow_stat where
  "ex_stat1 = \<lparr>aggregated_flow_stat.ts_us = 7, sent_bytes = 1000, recv_bytes = 2000\<rparr>"

definition ex_stat3 :: aggregated_flow_stat where
  "ex_stat3 = \<lparr>aggregated_flow_stat.ts_us = 9, sent_bytes = 1, recv_bytes = 2\<rparr>"

definition ex_flow_entries :: "(aggregated_flow_tuple \<times> aggregated_flow) list" where
  "ex_flow_entries = [(ex_key1, ex_value1), (ex_key2, ex_value2), (ex_key1, ex_value1b)]"

definition ex_stat_entries :: "(aggregated_flow_tuple \<times> aggregated_flow_stat) list" where
  "ex_stat_entries = [(ex_key1, ex_stat1), (ex_key3, ex_stat3)]"

text \<open>What \<^verbatim>\<open>DumpFlows\<close> returns on them when \<^verbatim>\<open>range\<close> visits the flow map backwards.\<close>

definition ex_merged :: "Flow list" where
  "ex_merged =
     [\<lparr>SAddr = [0x7F, 0, 0, 2], DAddr = [0x7F, 0, 0, 1], ProcessName = [0x64, 0x6E, 0x73],
       LPort = 53, Direction = 3, LastPID = 7, L4Proto = 0,
       Stat = Some \<lparr>Timestamp = Time_zero, sentBytes = 0, recvBytes = 0\<rparr>\<rparr>,
      \<lparr>SAddr = [0x7F, 0, 0, 1], DAddr = [0x7F, 0, 0, 2], ProcessName = [0x63, 0x75, 0x72, 0x6C],
       LPort = 80, Direction = 2, LastPID = 101, L4Proto = 0,
       Stat = Some \<lparr>Timestamp = Time_Unix 7000000, sentBytes = 1000, recvBytes = 2000\<rparr>\<rparr>]"

text \<open>
  A tick whose drain fails, a tick whose drain succeeds, the stop signal, and a tick that
  comes too late; a callback that counts its calls and fails on an empty list.
\<close>

definition ex_events :: "poll_event list" where
  "ex_events =
     [Tick_recv False (Inl (Errno_error 9)) (Inr ex_stat_entries),
      Tick_recv False (Inr ex_flow_entries) (Inr ex_stat_entries),
      StopChan_recv,
      Tick_recv False (Inr []) (Inr [])]"

definition ex_cb :: "nat \<Rightarrow> Flow list \<Rightarrow> nat \<times> go_error option" where
  "ex_cb c fl = (c + 1, if fl = [] then Some (Errno_error 22) else None)"

definition ex_tracer :: TracerStreaming where
  "ex_tracer = \<lparr>obj = 0x10, rb = 0x20, stopChan = Chan_open, statsFd = 7\<rparr>"

section \<open>Properties of the kernel probes\<close>

subsection \<open>What each probe submits\<close>

lemma direction_insert_flows:
  "f \<in> set (emitted st (insert_flows ctx p sk l d st)) \<Longrightarrow> flow.direction f = d"
  by (auto simp add: insert_flows_def emitted_def split: option.splits)

lemma lport_insert_flows:
  "f \<in> set (emitted st (insert_flows ctx p sk l d st)) \<Longrightarrow> flow.lport f = l"
  by (auto simp add: insert_flows_def emitted_def split: option.splits)

lemma emitted_tcp_v4_connect: "emitted st (tcp_v4_connect n ctx sk st) = []"
  by (simp add: tcp_v4_connect_def emitted_def)

lemma emitted_tcp_v4_connect_ret:
  "emitted st (tcp_v4_connect_ret ctx ret st) =
     (case bpf_map_lookup_elem (tcp_connect_sockets st) (tid_of ctx) of
        None \<Rightarrow> []
      | Some sk \<Rightarrow>
          if ret \<noteq> 0 then []
          else emitted st (insert_flows ctx (pid_of ctx) sk
                 (core_read (sock_at ctx) sk skc_dport) FLOW_ACTIVE st))"
  by (simp add: tcp_v4_connect_ret_def emitted_def Let_def split: option.split)

lemma emitted_inet_csk_accept_ret:
  "emitted st (inet_csk_accept_ret ctx sk st) =
     (if sk = 0 then []
      else emitted st (insert_flows ctx (pid_of ctx) sk
             (core_read (sock_at ctx) sk skc_num) FLOW_PASSIVE st))"
  by (simp add: inet_csk_accept_ret_def emitted_def)

lemma emitted_insert_udp_flows:
  "emitted st (insert_udp_flows ctx p k st) =
     (case ringbuf_reserve ctx of
        None \<Rightarrow> []
      | Some slot \<Rightarrow>
          [slot\<lparr>flow.ts_us := ktime_get_ns ctx div 1000,
                flow.saddr := ipv4_flow_key.saddr k,
                flow.daddr := ipv4_flow_key.daddr k,
                flow.lport := ipv4_flow_key.lport k,
                flow.direction := ipv4_flow_key.direction k,
                flow.l4_proto := ipv4_flow_key.l4_proto k,
                flow.pid := p,
                flow.task := current_comm ctx\<rparr>])"
  by (simp add: insert_udp_flows_def emitted_def split: option.split)

lemma FLOW_ACTIVE_neq_PASSIVE: "FLOW_ACTIVE \<noteq> FLOW_PASSIVE"
  by (simp add: FLOW_ACTIVE_def FLOW_PASSIVE_def)

lemma tcp_emitted_direction:
  assumes "f \<in> set (emitted st (run_tcp_probe max_entries ctx p st))"
  shows "(flow.direction f = FLOW_ACTIVE \<longleftrightarrow> is_connect_ret p)
       \<and> (flow.direction f = FLOW_PASSIVE \<longleftrightarrow> is_accept_ret p)
       \<and> flow.direction f \<noteq> FLOW_UNKNOWN"
proof (cases p)
  case (Tcp_v4_connect sk)
  with assms show ?thesis by (simp add: emitted_tcp_v4_connect)
next
  case (Tcp_v4_connect_ret ret)
  with assms have "flow.direction f = FLOW_ACTIVE"
    by (auto simp add: emitted_tcp_v4_connect_ret split: option.splits if_splits
             dest: direction_insert_flows)
  with Tcp_v4_connect_ret show ?thesis
    by (simp add: FLOW_ACTIVE_def FLOW_PASSIVE_def FLOW_UNKNOWN_def)
next
  case (Inet_csk_accept_ret sk)
  with assms have "flow.direction f = FLOW_PASSIVE"
    by (auto simp add: emitted_inet_csk_accept_ret split: if_splits
             dest: direction_insert_flows)
  with Inet_csk_accept_ret show ?thesis
    by (simp add: FLOW_ACTIVE_def FLOW_PASSIVE_def FLOW_UNKNOWN_def)
qed

lemma tcp_emitted_lport:
  assumes "f \<in> set (emitted st (run_tcp_probe max_entries ctx p st))"
  shows "flow.lport f =
           (if is_connect_ret p
            then core_read (sock_at ctx) (tcp_probe_sock ctx st p) skc_dport
            else core_read (sock_at ctx) (tcp_probe_sock ctx st p) skc_num)"
proof (cases p)
  case (Tcp_v4_connect sk)
  with assms show ?thesis by (simp add: emitted_tcp_v4_connect)
next
  case (Tcp_v4_connect_ret ret)
  with assms show ?thesis
    by (auto simp add: emitted_tcp_v4_connect_ret split: option.splits if_splits
             dest: lport_insert_flows)
next
  case (Inet_csk_accept_ret sk)
  with assms show ?thesis
    by (auto simp add: emitted_inet_csk_accept_ret split: if_splits
             dest: lport_insert_flows)
qed

text \<open>A TCP probe leaves in \<^verbatim>\<open>l4_proto\<close> what the reserved memory held.\<close>

lemma l4_proto_insert_flows:
  "f \<in> set (emitted st (insert_flows ctx p sk l d st)) \<Longrightarrow>
     \<exists>slot. ringbuf_reserve ctx = Some slot \<and> flow.l4_proto f = flow.l4_proto slot"
  by (auto simp add: insert_flows_def emitted_def split: option.splits)

lemma tcp_emitted_l4_proto:
  assumes "f \<in> set (emitted st (run_tcp_probe max_entries ctx p st))"
  shows "\<exists>slot. ringbuf_reserve ctx = Some slot \<and> flow.l4_proto f = flow.l4_proto slot"
proof (cases p)
  case (Tcp_v4_connect sk)
  with assms show ?thesis by (simp add: emitted_tcp_v4_connect)
next
  case (Tcp_v4_connect_ret ret)
  with assms show ?thesis
    by (auto simp add: emitted_tcp_v4_connect_ret split: option.splits if_splits
             dest: l4_proto_insert_flows)
next
  case (Inet_csk_accept_ret sk)
  with assms show ?thesis
    by (auto simp add: emitted_inet_csk_accept_ret split: if_splits
             dest: l4_proto_insert_flows)
qed

subsection \<open>Byte order\<close>

lemma bswap16_bswap16: "bswap16 (bswap16 x) = x"
  unfolding bswap16_def
  by (rule bit_word_eqI) (auto simp add: bit_simps)

lemma bpf_ntohs_eq_htons: "bpf_ntohs bo x = bpf_htons bo x"
  by (simp add: bpf_htons_def bpf_ntohs_def)

lemma bpf_htons_htons: "bpf_htons bo (bpf_htons bo x) = x"
  by (cases bo) (simp_all add: bpf_htons_def bswap16_bswap16)

subsection \<open>The UDP probes\<close>

lemma ip_make_skb_fields:
  assumes "f \<in> set (emitted st (ip_make_skb bo ctx sk flw4 st))"
  shows "flow.direction f =
           (if map_of (udp_port_binding st) (core_read (sock_at ctx) sk skc_num) = None
            then FLOW_ACTIVE else FLOW_PASSIVE)
       \<and> flow.lport f =
           (if map_of (udp_port_binding st) (core_read (sock_at ctx) sk skc_num) = None
            then core_read (sock_at ctx) sk skc_dport
            else bpf_htons bo (core_read (sock_at ctx) sk skc_num))
       \<and> flow.l4_proto f = IPPROTO_UDP"
  using assms
  by (auto simp add: ip_make_skb_def Let_def emitted_insert_udp_flows bpf_map_lookup_elem_def
           split: option.splits)

lemma skb_consume_udp_fields:
  assumes "f \<in> set (emitted st (skb_consume_udp bo ctx sk skb st))"
  shows "flow.direction f =
           (if map_of (udp_port_binding st)
                 (bpf_htons bo (core_read (udphdr_at ctx) skb dest)) = None
            then FLOW_ACTIVE else FLOW_PASSIVE)
       \<and> flow.lport f =
           (if map_of (udp_port_binding st)
                 (bpf_htons bo (core_read (udphdr_at ctx) skb dest)) = None
            then core_read (udphdr_at ctx) skb source
            else core_read (udphdr_at ctx) skb dest)
       \<and> flow.l4_proto f = IPPROTO_UDP"
  using assms
  by (auto simp add: skb_consume_udp_def Let_def emitted_insert_udp_flows bpf_map_lookup_elem_def
           split: option.splits)

lemma udp_emitted_fields:
  assumes "f \<in> set (emitted st (run_udp_probe bo ctx p st))"
  shows "flow.direction f =
           (if map_of (udp_port_binding st) (udp_local_port bo ctx p) = None
            then FLOW_ACTIVE else FLOW_PASSIVE)
       \<and> flow.lport f =
           (if map_of (udp_port_binding st) (udp_local_port bo ctx p) = None
            then bpf_htons bo (udp_remote_port bo ctx p)
            else bpf_htons bo (udp_local_port bo ctx p))
       \<and> flow.l4_proto f = IPPROTO_UDP"
proof (cases p)
  case (Ip_make_skb sk flw4)
  with assms have "f \<in> set (emitted st (ip_make_skb bo ctx sk flw4 st))" by simp
  from ip_make_skb_fields [OF this] Ip_make_skb show ?thesis
    by (simp add: bpf_ntohs_eq_htons bpf_htons_htons)
next
  case (Skb_consume_udp sk skb)
  with assms have "f \<in> set (emitted st (skb_consume_udp bo ctx sk skb st))" by simp
  from skb_consume_udp_fields [OF this] Skb_consume_udp show ?thesis
    by (simp add: bpf_ntohs_eq_htons bpf_htons_htons)
qed

subsection \<open>The probes on the example inputs\<close>

lemma ex_connect_ret:
  "emitted ex_maps (run_tcp_probe 8 ex_ctx (Tcp_v4_connect_ret 0) ex_maps) = [ex_tcp_active]"
  by (simp add: emitted_def tcp_v4_connect_ret_def ex_maps_def ex_ctx_def insert_flows_def
        bpf_map_lookup_elem_def bpf_map_delete_elem_def tid_of_def pid_of_def core_read_def
        ex_sock_def ex_slot_def ex_tcp_active_def FLOW_ACTIVE_def)

lemma ex_accept_ret:
  "emitted ex_maps (run_tcp_probe 8 ex_ctx (Inet_csk_accept_ret 0x1000) ex_maps) = [ex_tcp_passive]"
  by (simp add: emitted_def inet_csk_accept_ret_def ex_maps_def ex_ctx_def insert_flows_def
        pid_of_def core_read_def ex_sock_def ex_slot_def ex_tcp_passive_def FLOW_PASSIVE_def)

lemma ex_send_bound:
  "emitted ex_maps (run_udp_probe LittleEndian ex_ctx (Ip_make_skb 0x1000 0x2000) ex_maps)
     = [ex_udp_send_passive]"
  by (simp add: emitted_insert_udp_flows ip_make_skb_def ex_maps_def ex_ctx_def
        bpf_map_lookup_elem_def pid_of_def core_read_def ex_sock_def ex_slot_def
        ex_udp_send_passive_def FLOW_PASSIVE_def IPPROTO_UDP_def ipv4_flow_key_zero_def
        bpf_htons_def bswap16_def)

lemma ex_recv_unbound:
  "emitted ex_maps_unbound
     (run_udp_probe LittleEndian ex_ctx (Skb_consume_udp 0x1000 0x3000) ex_maps_unbound)
     = [ex_udp_recv_active]"
  by (simp add: emitted_insert_udp_flows skb_consume_udp_def ex_maps_unbound_def ex_ctx_def
        bpf_map_lookup_elem_def pid_of_def core_read_def ex_slot_def
        ex_udp_recv_active_def FLOW_ACTIVE_def IPPROTO_UDP_def ipv4_flow_key_zero_def
        bpf_htons_def bswap16_def)

lemma ex_send_local_port:
  "udp_local_port LittleEndian ex_ctx (Ip_make_skb 0x1000 0x2000) = 53"
  by (simp add: ex_ctx_def core_read_def ex_sock_def)

lemma ex_recv_local_port:
  "udp_local_port LittleEndian ex_ctx (Skb_consume_udp 0x1000 0x3000) = 53"
  by (simp add: ex_ctx_def core_read_def bpf_ntohs_def bswap16_def)

subsection \<open>The specified properties\<close>

text \<open>
  C1. Every record that a TCP probe emits has direction ACTIVE exactly when the probe is
  the return probe of \<^verbatim>\<open>tcp_v4_connect\<close>, and direction PASSIVE exactly when it is the return
  probe of \<^verbatim>\<open>inet_csk_accept\<close>; none has direction UNKNOWN.
\<close>

theorem C1_tcp_direction_by_probe:
  assumes "f \<in> set (emitted st (run_tcp_probe max_entries ctx p st))"
  shows "(flow.direction f = FLOW_ACTIVE \<longleftrightarrow> is_connect_ret p)
       \<and> (flow.direction f = FLOW_PASSIVE \<longleftrightarrow> is_accept_ret p)
       \<and> flow.direction f \<noteq> FLOW_UNKNOWN"
  using assms by (rule tcp_emitted_direction)

theorem C1_witness:
  "ex_tcp_active \<in> set (emitted ex_maps (run_tcp_probe 8 ex_ctx (Tcp_v4_connect_ret 0) ex_maps))
   \<and> (flow.direction ex_tcp_active = FLOW_ACTIVE \<longleftrightarrow> is_connect_ret (Tcp_v4_connect_ret 0))
   \<and> (flow.direction ex_tcp_active = FLOW_PASSIVE \<longleftrightarrow> is_accept_ret (Tcp_v4_connect_ret 0))
   \<and> flow.direction ex_tcp_active \<noteq> FLOW_UNKNOWN"
proof -
  have m: "ex_tcp_active
             \<in> set (emitted ex_maps (run_tcp_probe 8 ex_ctx (Tcp_v4_connect_ret 0) ex_maps))"
    using ex_connect_ret by simp
  from m C1_tcp_direction_by_probe [OF m] show ?thesis by blast
qed

text \<open>
  C2. Every record that a UDP probe emits, on the send path or on the receive path, has
  direction PASSIVE when the lookup of the local port in \<^verbatim>\<open>udp_port_binding\<close> succeeds and
  direction ACTIVE when it fails; in particular the direction is PASSIVE when the local
  port was stored in the table before.
\<close>

theorem C2_udp_direction_by_port_binding:
  assumes "f \<in> set (emitted st (run_udp_probe bo ctx p st))"
  shows "(bpf_map_lookup_elem (udp_port_binding st) (udp_local_port bo ctx p) \<noteq> None
            \<longrightarrow> flow.direction f = FLOW_PASSIVE)
       \<and> (bpf_map_lookup_elem (udp_port_binding st) (udp_local_port bo ctx p) = None
            \<longrightarrow> flow.direction f = FLOW_ACTIVE)
       \<and> (udp_port_binding st = bpf_map_update_elem n m (udp_local_port bo ctx p) v
            \<and> (bpf_map_lookup_elem m (udp_local_port bo ctx p) \<noteq> None \<or> length m < n)
            \<longrightarrow> flow.direction f = FLOW_PASSIVE)"
  using udp_emitted_fields [OF assms]
  by (auto simp add: bpf_map_lookup_elem_def bpf_map_update_elem_def update_conv')

theorem C2_witness:
  "ex_udp_send_passive
     \<in> set (emitted ex_maps (run_udp_probe LittleEndian ex_ctx (Ip_make_skb 0x1000 0x2000) ex_maps))
   \<and> bpf_map_lookup_elem (udp_port_binding ex_maps)
        (udp_local_port LittleEndian ex_ctx (Ip_make_skb 0x1000 0x2000)) \<noteq> None
   \<and> udp_port_binding ex_maps
        = bpf_map_update_elem 8 [] (udp_local_port LittleEndian ex_ctx (Ip_make_skb 0x1000 0x2000)) 1
   \<and> length ([] :: (u16 \<times> u8) list) < 8
   \<and> flow.direction ex_udp_send_passive = FLOW_PASSIVE
   \<and> ex_udp_recv_active
        \<in> set (emitted ex_maps_unbound
                 (run_udp_probe LittleEndian ex_ctx (Skb_consume_udp 0x1000 0x3000) ex_maps_unbound))
   \<and> bpf_map_lookup_elem (udp_port_binding ex_maps_unbound)
        (udp_local_port LittleEndian ex_ctx (Skb_consume_udp 0x1000 0x3000)) = None
   \<and> flow.direction ex_udp_recv_active = FLOW_ACTIVE"
proof -
  have m1: "ex_udp_send_passive
     \<in> set (emitted ex_maps (run_udp_probe LittleEndian ex_ctx (Ip_make_skb 0x1000 0x2000) ex_maps))"
    using ex_send_bound by simp
  have h1: "bpf_map_lookup_elem (udp_port_binding ex_maps)
        (udp_local_port LittleEndian ex_ctx (Ip_make_skb 0x1000 0x2000)) \<noteq> None"
    by (simp only: ex_send_local_port) (simp add: ex_maps_def bpf_map_lookup_elem_def)
  have u1: "udp_port_binding ex_maps
        = bpf_map_update_elem 8 [] (udp_local_port LittleEndian ex_ctx (Ip_make_skb 0x1000 0x2000)) 1"
    by (simp only: ex_send_local_port) (simp add: ex_maps_def bpf_map_update_elem_def)
  have l1: "length ([] :: (u16 \<times> u8) list) < 8" by simp
  have m2: "ex_udp_recv_active
        \<in> set (emitted ex_maps_unbound
                 (run_udp_probe LittleEndian ex_ctx (Skb_consume_udp 0x1000 0x3000) ex_maps_unbound))"
    using ex_recv_unbound by simp
  have h2: "bpf_map_lookup_elem (udp_port_binding ex_maps_unbound)
        (udp_local_port LittleEndian ex_ctx (Skb_consume_udp 0x1000 0x3000)) = None"
    by (simp add: ex_maps_unbound_def bpf_map_lookup_elem_def)
  from C2_udp_direction_by_port_binding [OF m1, of 8 "[]" 1] u1 l1
  have d1: "flow.direction ex_udp_send_passive = FLOW_PASSIVE" by blast
  from C2_udp_direction_by_port_binding [OF m2] h2
  have d2: "flow.direction ex_udp_recv_active = FLOW_ACTIVE" by blast
  from m1 h1 u1 l1 d1 m2 h2 d2 show ?thesis by blast
qed

text \<open>
  What each path stores as the listening port. The return probe of \<^verbatim>\<open>tcp_v4_connect\<close> and
  both UDP probes store \<^verbatim>\<open>bpf_htons\<close> of the port number of the listening side; the return
  probe of \<^verbatim>\<open>inet_csk_accept\<close> stores \<^verbatim>\<open>skc_num\<close> as it reads it.
\<close>

lemma emitted_lport_by_path:
  "(f \<in> set (emitted st (run_tcp_probe max_entries ctx p st)) \<longrightarrow>
      (flow.direction f = FLOW_ACTIVE \<longrightarrow>
         flow.lport f = bpf_htons bo (sock_remote_port bo ctx (tcp_probe_sock ctx st p)))
    \<and> (flow.direction f = FLOW_PASSIVE \<longrightarrow>
         flow.lport f = sock_local_port ctx (tcp_probe_sock ctx st p)))
 \<and> (g \<in> set (emitted st' (run_udp_probe bo ctx' q st')) \<longrightarrow>
      (flow.direction g = FLOW_ACTIVE \<longrightarrow>
         flow.lport g = bpf_htons bo (udp_remote_port bo ctx' q))
    \<and> (flow.direction g = FLOW_PASSIVE \<longrightarrow>
         flow.lport g = bpf_htons bo (udp_local_port bo ctx' q)))"
proof (intro conjI; rule impI)
  assume m: "f \<in> set (emitted st (run_tcp_probe max_entries ctx p st))"
  show "(flow.direction f = FLOW_ACTIVE \<longrightarrow>
           flow.lport f = bpf_htons bo (sock_remote_port bo ctx (tcp_probe_sock ctx st p)))
      \<and> (flow.direction f = FLOW_PASSIVE \<longrightarrow>
           flow.lport f = sock_local_port ctx (tcp_probe_sock ctx st p))"
  proof (intro conjI impI)
    assume "flow.direction f = FLOW_ACTIVE"
    with tcp_emitted_direction [OF m] have "is_connect_ret p" by simp
    with tcp_emitted_lport [OF m]
    show "flow.lport f = bpf_htons bo (sock_remote_port bo ctx (tcp_probe_sock ctx st p))"
      by (simp add: sock_remote_port_def bpf_ntohs_eq_htons bpf_htons_htons)
  next
    assume "flow.direction f = FLOW_PASSIVE"
    with tcp_emitted_direction [OF m] have "is_accept_ret p" by simp
    then have "\<not> is_connect_ret p" by (cases p) simp_all
    with tcp_emitted_lport [OF m]
    show "flow.lport f = sock_local_port ctx (tcp_probe_sock ctx st p)"
      by (simp add: sock_local_port_def)
  qed
next
  assume m: "g \<in> set (emitted st' (run_udp_probe bo ctx' q st'))"
  have d: "flow.direction g =
         (if map_of (udp_port_binding st') (udp_local_port bo ctx' q) = None
          then FLOW_ACTIVE else FLOW_PASSIVE)"
    and l: "flow.lport g =
         (if map_of (udp_port_binding st') (udp_local_port bo ctx' q) = None
          then bpf_htons bo (udp_remote_port bo ctx' q)
          else bpf_htons bo (udp_local_port bo ctx' q))"
    using udp_emitted_fields [OF m] by blast+
  show "(flow.direction g = FLOW_ACTIVE \<longrightarrow>
           flow.lport g = bpf_htons bo (udp_remote_port bo ctx' q))
      \<and> (flow.direction g = FLOW_PASSIVE \<longrightarrow>
           flow.lport g = bpf_htons bo (udp_local_port bo ctx' q))"
  proof (cases "map_of (udp_port_binding st') (udp_local_port bo ctx' q) = None")
    case True
    with d l have "flow.direction g = FLOW_ACTIVE"
      and "flow.lport g = bpf_htons bo (udp_remote_port bo ctx' q)" by simp_all
    with FLOW_ACTIVE_neq_PASSIVE show ?thesis by simp
  next
    case False
    with d l have "flow.direction g = FLOW_PASSIVE"
      and "flow.lport g = bpf_htons bo (udp_local_port bo ctx' q)" by simp_all
    with FLOW_ACTIVE_neq_PASSIVE show ?thesis by simp
  qed
qed

text \<open>
  C3 does not hold of the code: the two paths that emit PASSIVE records do not store the
  local port the same way. On a little-endian machine, for the same local port 53, the
  return probe of \<^verbatim>\<open>inet_csk_accept\<close> stores 53, the number as \<^verbatim>\<open>skc_num\<close> holds it, and
  \<^verbatim>\<open>ip_make_skb\<close> stores \<^verbatim>\<open>bpf_htons\<close> of it, 13568; the return probe of \<^verbatim>\<open>tcp_v4_connect\<close>
  stores the remote port 80 as \<^verbatim>\<open>skc_dport\<close> holds it, in network byte order too (20480).
  So the listening port of an accept record is not the local port in the encoding that
  every other path uses.
\<close>

theorem C3_accept_lport_not_network_order:
  "emitted ex_maps (run_tcp_probe 8 ex_ctx (Inet_csk_accept_ret 0x1000) ex_maps)
     = [ex_tcp_passive]
   \<and> emitted ex_maps (run_udp_probe LittleEndian ex_ctx (Ip_make_skb 0x1000 0x2000) ex_maps)
       = [ex_udp_send_passive]
   \<and> emitted ex_maps (run_tcp_probe 8 ex_ctx (Tcp_v4_connect_ret 0) ex_maps)
       = [ex_tcp_active]
   \<and> flow.direction ex_tcp_passive = FLOW_PASSIVE
   \<and> flow.direction ex_udp_send_passive = FLOW_PASSIVE
   \<and> flow.direction ex_tcp_active = FLOW_ACTIVE
   \<and> sock_local_port ex_ctx (tcp_probe_sock ex_ctx ex_maps (Inet_csk_accept_ret 0x1000)) = 53
   \<and> udp_local_port LittleEndian ex_ctx (Ip_make_skb 0x1000 0x2000) = 53
   \<and> sock_remote_port LittleEndian ex_ctx
         (tcp_probe_sock ex_ctx ex_maps (Tcp_v4_connect_ret 0)) = 80
   \<and> flow.lport ex_tcp_passive = 53
   \<and> flow.lport ex_udp_send_passive = 13568
   \<and> flow.lport ex_tcp_active = 20480
   \<and> bpf_htons LittleEndian 53 = 13568
   \<and> bpf_htons LittleEndian 80 = 20480
   \<and> flow.lport ex_tcp_passive \<noteq> flow.lport ex_udp_send_passive"
proof -
  have d: "flow.direction ex_tcp_passive = FLOW_PASSIVE"
    "flow.direction ex_udp_send_passive = FLOW_PASSIVE"
    "flow.direction ex_tcp_active = FLOW_ACTIVE"
    by (simp_all add: ex_tcp_passive_def ex_udp_send_passive_def ex_tcp_active_def
          FLOW_PASSIVE_def FLOW_ACTIVE_def)
  have p: "sock_local_port ex_ctx (tcp_probe_sock ex_ctx ex_maps (Inet_csk_accept_ret 0x1000)) = 53"
    by (simp add: sock_local_port_def ex_ctx_def core_read_def ex_sock_def)
  have r: "sock_remote_port LittleEndian ex_ctx
         (tcp_probe_sock ex_ctx ex_maps (Tcp_v4_connect_ret 0)) = 80"
    by (simp add: sock_remote_port_def ex_ctx_def ex_maps_def core_read_def ex_sock_def
          bpf_map_lookup_elem_def tid_of_def bpf_ntohs_def bswap16_def)
  have l: "flow.lport ex_tcp_passive = 53" "flow.lport ex_udp_send_passive = 13568"
    "flow.lport ex_tcp_active = 20480"
    by (simp_all add: ex_tcp_passive_def ex_udp_send_passive_def ex_tcp_active_def)
  have h: "bpf_htons LittleEndian 53 = 13568" "bpf_htons LittleEndian 80 = 20480"
    by (simp_all add: bpf_htons_def bswap16_def)
  from d p r l h ex_accept_ret ex_send_bound ex_connect_ret ex_send_local_port
  show ?thesis by simp
qed

text \<open>
  C4 does not hold of the code: \<^verbatim>\<open>insert_flows\<close> never assigns \<^verbatim>\<open>l4_proto\<close>, so a record of a
  TCP probe keeps in that field what the reserved memory held. On a fresh record the
  field is 0; on memory that held a UDP record before, it is 17.
\<close>

theorem C4_tcp_l4_proto_left_unset:
  "map flow.l4_proto
     (emitted ex_maps (run_tcp_probe 8 ex_ctx (Tcp_v4_connect_ret 0) ex_maps)) = [0]
   \<and> map flow.l4_proto
       (emitted ex_maps
          (run_tcp_probe 8 (ex_ctx\<lparr>ringbuf_reserve := Some ex_udp_send_passive\<rparr>)
             (Inet_csk_accept_ret 0x1000) ex_maps)) = [IPPROTO_UDP]
   \<and> IPPROTO_TCP \<noteq> (0 :: u8) \<and> IPPROTO_TCP \<noteq> IPPROTO_UDP"
proof -
  have "map flow.l4_proto
     (emitted ex_maps (run_tcp_probe 8 ex_ctx (Tcp_v4_connect_ret 0) ex_maps)) = [0]"
    by (simp only: ex_connect_ret) (simp add: ex_tcp_active_def)
  moreover have "map flow.l4_proto
       (emitted ex_maps
          (run_tcp_probe 8 (ex_ctx\<lparr>ringbuf_reserve := Some ex_udp_send_passive\<rparr>)
             (Inet_csk_accept_ret 0x1000) ex_maps)) = [IPPROTO_UDP]"
    by (simp add: emitted_def inet_csk_accept_ret_def ex_maps_def ex_ctx_def insert_flows_def
          ex_udp_send_passive_def IPPROTO_UDP_def)
  ultimately show ?thesis
    by (simp add: IPPROTO_TCP_def IPPROTO_UDP_def)
qed

text \<open>
  C5. When the thread has an entry in \<^verbatim>\<open>tcp_connect_sockets\<close>, the return probe of
  \<^verbatim>\<open>tcp_v4_connect\<close> leaves the map without an entry for the thread, whatever the return
  value of the call; and when the return value is not zero, it emits no record.
\<close>

lemma map_of_delete_same: "map_of (AList.delete k al) k = None"
  by (simp add: delete_conv')

theorem C5_connect_ret_deletes_entry:
  assumes "bpf_map_lookup_elem (tcp_connect_sockets st) (tid_of ctx) = Some sk"
  shows "bpf_map_lookup_elem (tcp_connect_sockets (tcp_v4_connect_ret ctx ret st)) (tid_of ctx)
           = None
       \<and> (ret \<noteq> 0 \<longrightarrow> flows (tcp_v4_connect_ret ctx ret st) = flows st)"
  using assms
  by (simp add: tcp_v4_connect_ret_def Let_def bpf_map_lookup_elem_def bpf_map_delete_elem_def
        map_of_delete_same insert_flows_def split: option.split)

theorem C5_witness:
  "bpf_map_lookup_elem (tcp_connect_sockets ex_maps) (tid_of ex_ctx) = Some 0x1000
   \<and> (- 111 :: u32) \<noteq> 0
   \<and> bpf_map_lookup_elem
        (tcp_connect_sockets (tcp_v4_connect_ret ex_ctx (- 111) ex_maps)) (tid_of ex_ctx) = None
   \<and> flows (tcp_v4_connect_ret ex_ctx (- 111) ex_maps) = flows ex_maps"
proof -
  have h: "bpf_map_lookup_elem (tcp_connect_sockets ex_maps) (tid_of ex_ctx) = Some 0x1000"
    by (simp add: ex_maps_def ex_ctx_def tid_of_def bpf_map_lookup_elem_def)
  have r: "(- 111 :: u32) \<noteq> 0" by simp
  from C5_connect_ret_deletes_entry [OF h, of "- 111"] h r show ?thesis by blast
qed

section \<open>Properties of the aggregating tracer\<close>

subsection \<open>The two decoded maps\<close>

lemma dumpAggrFlows_loop_distinct:
  "distinct (map fst m) \<Longrightarrow> distinct (map fst (dumpAggrFlows_loop i n es m))"
  by (induction es arbitrary: m) (auto simp add: distinct_update)

lemma dumpAggrFlows_loop_keys:
  "fst ` set (dumpAggrFlows_loop i n es m) = fst ` set m \<union> fst ` set es"
proof (induction es arbitrary: m)
  case Nil
  show ?case by simp
next
  case (Cons e es)
  obtain t v where e: "e = (t, v)" by (cases e)
  show ?case unfolding e dumpAggrFlows_loop.simps Cons.IH
    by (simp add: dom_update)
qed

lemma dumpAggrFlows_loop_map_of:
  "map_of (dumpAggrFlows_loop i n es m) k =
     (case map_of (rev es) k of None \<Rightarrow> map_of m k | Some v \<Rightarrow> Some (flow_of_value i n v))"
  by (induction es arbitrary: m) (auto simp add: update_conv' map_add_def split: option.splits)

lemma dumpAggrFlowStats_loop_map_of:
  "map_of (dumpAggrFlowStats_loop es m) k =
     (case map_of (rev es) k of None \<Rightarrow> map_of m k | Some v \<Rightarrow> Some (stat_of_value v))"
  by (induction es arbitrary: m) (auto simp add: update_conv' map_add_def split: option.splits)

lemma distinct_alist_as_keys:
  assumes d: "distinct (map fst al)"
  shows "al = map (\<lambda>k. (k, the (map_of al k))) (map fst al)"
proof -
  have "map ((\<lambda>k. (k, the (map_of al k))) \<circ> fst) al = map (\<lambda>x. x) al"
  proof (rule map_cong [OF refl])
    fix x assume "x \<in> set al"
    then have "(fst x, snd x) \<in> set al" by simp
    with d have "map_of al (fst x) = Some (snd x)" by (simp only: map_of_eq_Some_iff)
    then show "((\<lambda>k. (k, the (map_of al k))) \<circ> fst) x = x" by simp
  qed
  then show ?thesis by simp
qed

lemma flows_keys_mset:
  "mset (map fst (dumpAggrFlows_loop i n fes [])) = mset (remdups (map fst fes))"
proof -
  have "distinct (map fst (dumpAggrFlows_loop i n fes []))"
    by (rule dumpAggrFlows_loop_distinct) simp
  moreover have "set (map fst (dumpAggrFlows_loop i n fes [])) = set (remdups (map fst fes))"
    by (simp add: dumpAggrFlows_loop_keys)
  moreover have "distinct (remdups (map fst fes))" by simp
  ultimately show ?thesis
    by (simp only: set_eq_iff_mset_eq_distinct)
qed

lemma flows_map_of_key:
  assumes "k \<in> fst ` set fes"
  shows "map_of (dumpAggrFlows_loop i n fes []) k
           = Some (flow_of_value i n (the (map_of (rev fes) k)))"
proof -
  from assms have "map_of (rev fes) k \<noteq> None"
    by (simp add: map_of_eq_None_iff)
  then obtain v where "map_of (rev fes) k = Some v" by blast
  then show ?thesis by (simp add: dumpAggrFlows_loop_map_of)
qed

subsection \<open>The merge\<close>

lemma merge_loop_eq:
  "merge_loop es stats acc = acc @ map (\<lambda>(t, fl). joined stats t fl) es"
  by (induction es arbitrary: acc) (auto simp add: joined_def split: option.splits)

lemma DumpFlows_ok:
  "DumpFlows i n ro sf (Inr fes) (Inr ses) =
     Inr (map (\<lambda>(t, fl). joined (dumpAggrFlowStats_loop ses []) t fl)
            (ro (dumpAggrFlows_loop i n fes [])))"
  by (simp add: DumpFlows_def dumpAggrFlows_def dumpAggrFlowStats_def merge_loop_eq)

lemma DumpFlows_flows_error:
  "DumpFlows i n ro False (Inl err) sd = Inl err"
  by (simp add: DumpFlows_def dumpAggrFlows_def split: sum.split)

lemma joined_stats:
  "joined (dumpAggrFlowStats_loop ses []) k fl =
     fl\<lparr>Stat := Some (case map_of (rev ses) k of
                        Some s \<Rightarrow> stat_of_value s
                      | None \<Rightarrow> AggrFlowStat_zero)\<rparr>"
  by (simp add: joined_def dumpAggrFlowStats_loop_map_of split: option.split)

lemma DumpFlows_mset:
  assumes "mset (ro (dumpAggrFlows_loop i n fes [])) = mset (dumpAggrFlows_loop i n fes [])"
  shows "mset (map (\<lambda>(t, fl). joined (dumpAggrFlowStats_loop ses []) t fl)
            (ro (dumpAggrFlows_loop i n fes [])))
         = image_mset
            (\<lambda>k. (flow_of_value i n (the (map_of (rev fes) k)))
                    \<lparr>Stat := Some (case map_of (rev ses) k of
                                     Some s \<Rightarrow> stat_of_value s
                                   | None \<Rightarrow> AggrFlowStat_zero)\<rparr>)
            (mset (remdups (map fst fes)))"
proof -
  let ?fm = "dumpAggrFlows_loop i n fes []"
  let ?G = "\<lambda>(t, fl). joined (dumpAggrFlowStats_loop ses []) t fl"
  let ?H = "\<lambda>k. (flow_of_value i n (the (map_of (rev fes) k)))
                    \<lparr>Stat := Some (case map_of (rev ses) k of
                                     Some s \<Rightarrow> stat_of_value s
                                   | None \<Rightarrow> AggrFlowStat_zero)\<rparr>"
  have d: "distinct (map fst ?fm)" by (rule dumpAggrFlows_loop_distinct) simp
  have "mset (map ?G (ro ?fm)) = image_mset ?G (mset ?fm)"
    using assms by simp
  also have "\<dots> = image_mset ?G (mset (map (\<lambda>k. (k, the (map_of ?fm k))) (map fst ?fm)))"
    using distinct_alist_as_keys [OF d] by simp
  also have "\<dots> = image_mset (\<lambda>k. ?G (k, the (map_of ?fm k))) (mset (map fst ?fm))"
    by (simp add: image_mset.compositionality comp_def)
  also have "\<dots> = image_mset (\<lambda>k. ?G (k, the (map_of ?fm k))) (mset (remdups (map fst fes)))"
    by (simp only: flows_keys_mset)
  also have "\<dots> = image_mset ?H (mset (remdups (map fst fes)))"
  proof (rule image_mset_cong)
    fix k assume "k \<in># mset (remdups (map fst fes))"
    then have "k \<in> fst ` set fes" by simp
    then show "?G (k, the (map_of ?fm k)) = ?H k"
      by (simp add: flows_map_of_key joined_stats)
  qed
  finally show ?thesis .
qed

lemma map_of_filter_key:
  "map_of (filter (\<lambda>e. fst e \<in> K) xs) k = (if k \<in> K then map_of xs k else None)"
  by (induction xs) auto

lemma joined_filter_stats:
  assumes "t \<in> K"
  shows "joined (dumpAggrFlowStats_loop (filter (\<lambda>e. fst e \<in> K) ses) []) t fl
           = joined (dumpAggrFlowStats_loop ses []) t fl"
  using assms by (simp add: joined_stats rev_filter map_of_filter_key)

subsection \<open>The polling loop\<close>

lemma pollFlows_result:
  "pollFlows i n ro cb c evs = (returned, c', out) \<Longrightarrow>
     (returned \<longleftrightarrow> StopChan_recv \<in> set evs)
     \<and> callback_args out = map (tick_flows i n ro) (takeWhile is_tick evs)"
proof (induction evs arbitrary: c returned c' out)
  case Nil
  then show ?case by simp
next
  case (Cons ev evs)
  show ?case
  proof (cases ev)
    case StopChan_recv
    with Cons.prems show ?thesis by simp
  next
    case (Tick_recv sf fd sd)
    with Cons.prems show ?thesis
      by (auto split: sum.splits prod.splits option.splits dest!: Cons.IH)
  qed
qed

lemma pollFlows_returned:
  "fst (pollFlows i n ro cb c evs) \<longleftrightarrow> StopChan_recv \<in> set evs"
  using pollFlows_result [of i n ro cb c evs] by (cases "pollFlows i n ro cb c evs") simp

lemma pollFlows_callback_args:
  "callback_args (snd (snd (pollFlows i n ro cb c evs)))
     = map (tick_flows i n ro) (takeWhile is_tick evs)"
  using pollFlows_result [of i n ro cb c evs] by (cases "pollFlows i n ro cb c evs") simp

subsection \<open>The tracer on the example inputs\<close>

lemma ex_keys_distinct:
  "ex_key1 \<noteq> ex_key2" "ex_key2 \<noteq> ex_key1" "ex_key1 \<noteq> ex_key3"
  "ex_key3 \<noteq> ex_key1" "ex_key2 \<noteq> ex_key3" "ex_key3 \<noteq> ex_key2"
  by (simp_all add: ex_key1_def ex_key2_def ex_key3_def)

lemma ex_flows_map:
  "dumpAggrFlows_loop ex_inetNtop ex_ntohs ex_flow_entries [] =
     [(ex_key1, flow_of_value ex_inetNtop ex_ntohs ex_value1b),
      (ex_key2, flow_of_value ex_inetNtop ex_ntohs ex_value2)]"
  by (simp add: ex_flow_entries_def ex_keys_distinct)

lemma ex_stats_map:
  "dumpAggrFlowStats_loop ex_stat_entries [] =
     [(ex_key1, stat_of_value ex_stat1), (ex_key3, stat_of_value ex_stat3)]"
  by (simp add: ex_stat_entries_def ex_keys_distinct)

lemma ex_DumpFlows:
  "DumpFlows ex_inetNtop ex_ntohs rev False (Inr ex_flow_entries) (Inr ex_stat_entries)
     = Inr ex_merged"
proof -
  have "DumpFlows ex_inetNtop ex_ntohs rev False (Inr ex_flow_entries) (Inr ex_stat_entries)
      = Inr (merge_loop
          [(ex_key2, flow_of_value ex_inetNtop ex_ntohs ex_value2),
           (ex_key1, flow_of_value ex_inetNtop ex_ntohs ex_value1b)]
          [(ex_key1, stat_of_value ex_stat1), (ex_key3, stat_of_value ex_stat3)] [])"
    by (simp add: DumpFlows_def dumpAggrFlows_def dumpAggrFlowStats_def ex_flows_map ex_stats_map)
  also have "\<dots> = Inr ex_merged"
    by (simp add: ex_keys_distinct ex_merged_def flow_of_value_def stat_of_value_def
          ex_value1b_def ex_value1_def ex_value2_def ex_stat1_def ex_inetNtop_def ex_ntohs_def
          bswap16_def GoString_def flowDirectionFrom_def FLOW_UNKNOWN_def FLOW_ACTIVE_def
          FLOW_PASSIVE_def FlowActive_def FlowPassive_def FlowUnknown_def AggrFlowStat_zero_def)
  finally show ?thesis .
qed

lemma ex_merged_not_Nil: "ex_merged \<noteq> []"
  by (simp add: ex_merged_def)

lemma mset_rev_go_map: "mset (rev m) = mset (m :: Flow go_map)"
  by simp

subsection \<open>The specified properties\<close>

text \<open>
  C6. When both drains succeed, \<^verbatim>\<open>DumpFlows\<close> returns, for every key drained from the flow
  map, one \<^verbatim>\<open>Flow\<close>, decoded from the value drained last under that key, whose \<^verbatim>\<open>Stat\<close> is
  the statistics entry drained under the same key when there is one, and an all-zero
  \<^verbatim>\<open>AggrFlowStat\<close> otherwise. The order of the list is that of \<^verbatim>\<open>range\<close>, so the result is
  stated as a multiset.
\<close>

theorem C6_DumpFlows_joins_stats:
  assumes "\<And>m. mset (range_order m) = mset m"
  shows "\<exists>merged.
           DumpFlows inetNtop ntohs range_order stats_first (Inr fes) (Inr ses) = Inr merged
         \<and> mset merged =
             image_mset
               (\<lambda>k. (flow_of_value inetNtop ntohs (the (map_of (rev fes) k)))
                       \<lparr>Stat := Some (case map_of (rev ses) k of
                                        Some s \<Rightarrow> stat_of_value s
                                      | None \<Rightarrow> AggrFlowStat_zero)\<rparr>)
               (mset (remdups (map fst fes)))"
  using DumpFlows_mset [of range_order inetNtop ntohs fes ses, OF assms]
  by (simp add: DumpFlows_ok)

theorem C6_witness:
  "(\<forall>m :: Flow go_map. mset (rev m) = mset m)
   \<and> DumpFlows ex_inetNtop ex_ntohs rev False (Inr ex_flow_entries) (Inr ex_stat_entries)
       = Inr ex_merged
   \<and> mset ex_merged =
       image_mset
         (\<lambda>k. (flow_of_value ex_inetNtop ex_ntohs (the (map_of (rev ex_flow_entries) k)))
                 \<lparr>Stat := Some (case map_of (rev ex_stat_entries) k of
                                  Some s \<Rightarrow> stat_of_value s
                                | None \<Rightarrow> AggrFlowStat_zero)\<rparr>)
         (mset (remdups (map fst ex_flow_entries)))"
proof -
  from C6_DumpFlows_joins_stats
         [where range_order = rev and inetNtop = ex_inetNtop and ntohs = ex_ntohs
            and stats_first = False and fes = ex_flow_entries and ses = ex_stat_entries,
          OF mset_rev_go_map]
  obtain merged where
    a: "DumpFlows ex_inetNtop ex_ntohs rev False (Inr ex_flow_entries) (Inr ex_stat_entries)
          = Inr merged"
    and b: "mset merged =
       image_mset
         (\<lambda>k. (flow_of_value ex_inetNtop ex_ntohs (the (map_of (rev ex_flow_entries) k)))
                 \<lparr>Stat := Some (case map_of (rev ex_stat_entries) k of
                                  Some s \<Rightarrow> stat_of_value s
                                | None \<Rightarrow> AggrFlowStat_zero)\<rparr>)
         (mset (remdups (map fst ex_flow_entries)))"
    by blast
  from a ex_DumpFlows have "merged = ex_merged" by simp
  with b ex_DumpFlows mset_rev_go_map show ?thesis by blast
qed

text \<open>
  C7. In \<^verbatim>\<open>pollFlows\<close> the loop returns exactly when the stop signal is received. Until
  then every tick calls the callback once, whatever the drain and the callback return;
  and a tick whose drain fails passes the callback an empty list.
\<close>

theorem C7_pollFlows_errors_do_not_stop:
  "(fst (pollFlows inetNtop ntohs range_order cb c evs) \<longleftrightarrow> StopChan_recv \<in> set evs)
 \<and> length (callback_args (snd (snd (pollFlows inetNtop ntohs range_order cb c evs))))
      = length (takeWhile is_tick evs)
 \<and> (\<forall>k < length (takeWhile is_tick evs).
       drain_failed inetNtop ntohs range_order (evs ! k) \<longrightarrow>
       callback_args (snd (snd (pollFlows inetNtop ntohs range_order cb c evs))) ! k = [])"
proof (intro conjI allI impI)
  show "fst (pollFlows inetNtop ntohs range_order cb c evs) \<longleftrightarrow> StopChan_recv \<in> set evs"
    by (rule pollFlows_returned)
  show "length (callback_args (snd (snd (pollFlows inetNtop ntohs range_order cb c evs))))
      = length (takeWhile is_tick evs)"
    by (simp add: pollFlows_callback_args)
next
  fix k
  assume k: "k < length (takeWhile is_tick evs)"
    and f: "drain_failed inetNtop ntohs range_order (evs ! k)"
  from k have e: "takeWhile is_tick evs ! k = evs ! k"
    by (rule takeWhile_nth)
  from f have "tick_flows inetNtop ntohs range_order (evs ! k) = []"
    by (cases "evs ! k") (auto split: sum.splits)
  with k e show "callback_args (snd (snd (pollFlows inetNtop ntohs range_order cb c evs))) ! k = []"
    by (simp add: pollFlows_callback_args)
qed

theorem C7_witness:
  "fst (pollFlows ex_inetNtop ex_ntohs rev ex_cb 0 ex_events)
   \<and> StopChan_recv \<in> set ex_events
   \<and> length (callback_args (snd (snd (pollFlows ex_inetNtop ex_ntohs rev ex_cb 0 ex_events)))) = 2
   \<and> 0 < length (takeWhile is_tick ex_events)
   \<and> drain_failed ex_inetNtop ex_ntohs rev (ex_events ! 0)
   \<and> callback_args (snd (snd (pollFlows ex_inetNtop ex_ntohs rev ex_cb 0 ex_events))) ! 0 = []"
proof -
  note t = C7_pollFlows_errors_do_not_stop [of ex_inetNtop ex_ntohs rev ex_cb 0 ex_events]
  have s: "StopChan_recv \<in> set ex_events" by (simp add: ex_events_def)
  have n: "length (takeWhile is_tick ex_events) = 2" by (simp add: ex_events_def)
  have k: "0 < length (takeWhile is_tick ex_events)" by (simp add: ex_events_def)
  have f: "drain_failed ex_inetNtop ex_ntohs rev (ex_events ! 0)"
    by (simp add: ex_events_def DumpFlows_flows_error)
  from t s have r: "fst (pollFlows ex_inetNtop ex_ntohs rev ex_cb 0 ex_events)" by blast
  from t n have l:
    "length (callback_args (snd (snd (pollFlows ex_inetNtop ex_ntohs rev ex_cb 0 ex_events)))) = 2"
    by simp
  from t k f have z:
    "callback_args (snd (snd (pollFlows ex_inetNtop ex_ntohs rev ex_cb 0 ex_events))) ! 0 = []"
    by blast
  from r s l k f z show ?thesis by blast
qed

text \<open>
  C10. When both drains succeed, the list that \<^verbatim>\<open>DumpFlows\<close> returns has as many elements
  as there are distinct keys among the drained flows, whatever statistics were drained;
  and it is the list returned when the statistics under keys that no drained flow has
  are left out.
\<close>

theorem C10_DumpFlows_length:
  assumes "\<And>m. mset (range_order m) = mset m"
  shows "\<exists>merged.
           DumpFlows inetNtop ntohs range_order stats_first (Inr fes) (Inr ses) = Inr merged
         \<and> length merged = card (fst ` set fes)
         \<and> DumpFlows inetNtop ntohs range_order stats_first (Inr fes)
             (Inr (filter (\<lambda>e. fst e \<in> fst ` set fes) ses)) = Inr merged"
proof -
  let ?fm = "dumpAggrFlows_loop inetNtop ntohs fes []"
  have p: "mset (range_order ?fm) = mset ?fm" by (rule assms)
  have d: "distinct (map fst ?fm)" by (rule dumpAggrFlows_loop_distinct) simp
  have "length (range_order ?fm) = length ?fm"
    using p by (rule mset_eq_length)
  also have "\<dots> = length (map fst ?fm)" by simp
  also have "\<dots> = card (set (map fst ?fm))"
    using d by (simp only: distinct_card)
  also have "\<dots> = card (fst ` set fes)"
    by (simp add: dumpAggrFlows_loop_keys)
  finally have len: "length (range_order ?fm) = card (fst ` set fes)" .
  have "set (range_order ?fm) = set ?fm"
    using p by (rule mset_eq_setD)
  then have keys: "\<And>e. e \<in> set (range_order ?fm) \<Longrightarrow> fst e \<in> fst ` set fes"
    using dumpAggrFlows_loop_keys [of inetNtop ntohs fes "[]"] by auto
  have same: "map (\<lambda>(t, fl). joined (dumpAggrFlowStats_loop
                  (filter (\<lambda>e. fst e \<in> fst ` set fes) ses) []) t fl) (range_order ?fm)
            = map (\<lambda>(t, fl). joined (dumpAggrFlowStats_loop ses []) t fl) (range_order ?fm)"
  proof (rule map_cong [OF refl])
    fix e assume "e \<in> set (range_order ?fm)"
    then have "fst e \<in> fst ` set fes" by (rule keys)
    then show "(case e of (t, fl) \<Rightarrow> joined (dumpAggrFlowStats_loop
                  (filter (\<lambda>e. fst e \<in> fst ` set fes) ses) []) t fl)
             = (case e of (t, fl) \<Rightarrow> joined (dumpAggrFlowStats_loop ses []) t fl)"
      by (cases e) (simp add: joined_filter_stats)
  qed
  show ?thesis
    by (simp only: DumpFlows_ok same) (simp add: len)
qed

theorem C10_witness:
  "(\<forall>m :: Flow go_map. mset (rev m) = mset m)
   \<and> DumpFlows ex_inetNtop ex_ntohs rev False (Inr ex_flow_entries) (Inr ex_stat_entries)
       = Inr ex_merged
   \<and> length ex_merged = card (fst ` set ex_flow_entries)
   \<and> length ex_merged = 2 \<and> length ex_stat_entries = 2
   \<and> filter (\<lambda>e. fst e \<in> fst ` set ex_flow_entries) ex_stat_entries = [(ex_key1, ex_stat1)]
   \<and> DumpFlows ex_inetNtop ex_ntohs rev False (Inr ex_flow_entries) (Inr [(ex_key1, ex_stat1)])
       = Inr ex_merged"
proof -
  from C10_DumpFlows_length
         [where range_order = rev and inetNtop = ex_inetNtop and ntohs = ex_ntohs
            and stats_first = False and fes = ex_flow_entries and ses = ex_stat_entries,
          OF mset_rev_go_map]
  obtain merged where
    a: "DumpFlows ex_inetNtop ex_ntohs rev False (Inr ex_flow_entries) (Inr ex_stat_entries)
          = Inr merged"
    and b: "length merged = card (fst ` set ex_flow_entries)"
    and c: "DumpFlows ex_inetNtop ex_ntohs rev False (Inr ex_flow_entries)
             (Inr (filter (\<lambda>e. fst e \<in> fst ` set ex_flow_entries) ex_stat_entries)) = Inr merged"
    by blast
  from a ex_DumpFlows have m: "merged = ex_merged" by simp
  have f: "filter (\<lambda>e. fst e \<in> fst ` set ex_flow_entries) ex_stat_entries = [(ex_key1, ex_stat1)]"
    by (simp add: ex_flow_entries_def ex_stat_entries_def ex_keys_distinct)
  have l: "length ex_merged = 2 \<and> length ex_stat_entries = 2"
    by (simp add: ex_merged_def ex_stat_entries_def)
  from b c m f l ex_DumpFlows mset_rev_go_map show ?thesis by simp
qed

section \<open>Properties of the streaming tracer\<close>

lemma scast_EINTR: "((scast (x :: u32) :: u64) = 4) = (x = 4)"
proof
  assume a: "(scast x :: u64) = 4"
  have "sint (scast x :: u64) = sint x"
    by (rule sint_up_scast) (simp add: is_up)
  with a have "sint x = sint (4 :: u32)" by simp
  then show "x = 4" by (rule signed_word_eqI)
next
  assume "x = 4" then show "(scast x :: u64) = 4" by simp
qed

lemma neg_eq_4: "(- n = (4 :: u32)) = (n = - 4)"
  by (metis minus_minus)

lemma Start_loop_tick:
  "Start_loop (Tick_poll n # evs) =
     (if 0 \<le> sint n \<or> n = - 4 then Start_loop evs
      else Start_returned (Some (Errorf_polling_ring_buffer n)))"
  by (auto simp add: EINTR_def scast_EINTR neg_eq_4)

text \<open>
  C8. In the loop of \<^verbatim>\<open>Start\<close>, a poll that returns \<open>-EINTR\<close> is absorbed and the loop goes on
  with what comes next; any other negative value makes \<^verbatim>\<open>Start\<close> return an error, there
  and then; a value that is not negative lets the loop go on.
\<close>

theorem C8_Start_poll_errors:
  "(n = - 4 \<longrightarrow> Start None (Tick_poll n # evs) = Start None evs)
 \<and> (sint n < 0 \<and> n \<noteq> - 4 \<longrightarrow>
      Start None (Tick_poll n # evs) = Start_returned (Some (Errorf_polling_ring_buffer n)))
 \<and> (0 \<le> sint n \<longrightarrow> Start None (Tick_poll n # evs) = Start None evs)"
  by (simp add: Start_def Start_loop_tick del: Start_loop.simps)

theorem C8_witness:
  "Start None [Tick_poll (- 4), Tick_poll 3, Tick_poll (- 1), Tick_poll 0, Stop_recv]
     = Start_returned (Some (Errorf_polling_ring_buffer (- 1)))
   \<and> (- 4 :: u32) = - (ucast EINTR)
   \<and> sint (- 1 :: u32) < 0 \<and> (- 1 :: u32) \<noteq> - 4 \<and> 0 \<le> sint (3 :: u32)"
proof -
  have a: "sint (- 1 :: u32) < 0 \<and> (- 1 :: u32) \<noteq> - 4" by simp
  have b: "0 \<le> sint (3 :: u32)" by simp
  have e: "(- 4 :: u32) = - (ucast EINTR)" by (simp add: EINTR_def)
  have "Start None [Tick_poll (- 4), Tick_poll 3, Tick_poll (- 1), Tick_poll 0, Stop_recv]
        = Start None [Tick_poll 3, Tick_poll (- 1), Tick_poll 0, Stop_recv]"
    using C8_Start_poll_errors [of "- 4"] by blast
  also have "\<dots> = Start None [Tick_poll (- 1), Tick_poll 0, Stop_recv]"
    using C8_Start_poll_errors [of 3] b by blast
  also have "\<dots> = Start_returned (Some (Errorf_polling_ring_buffer (- 1)))"
    using C8_Start_poll_errors [of "- 1"] a by blast
  finally show ?thesis using a b e by blast
qed

text \<open>
  C9, as the code has it. \<^verbatim>\<open>Close\<close> on a tracer whose stop channel is open performs exactly
  these operations, in this order: it closes the stop channel, then closes the descriptor
  of the statistics when that is not zero, then frees the ring buffer, then destroys the
  BPF object. When the descriptor is zero the other three steps are all it does.
\<close>

theorem C9_Close_order:
  assumes "stopChan t = Chan_open"
  shows "(statsFd t \<noteq> 0 \<longrightarrow>
            Close t = Inr ([Close_stopChan, Syscall_Close (statsFd t),
                            Ring_buffer_free (rb t), Bpf_destroy (obj t)],
                           t\<lparr>stopChan := Chan_closed\<rparr>))
       \<and> (statsFd t = 0 \<longrightarrow>
            Close t = Inr ([Close_stopChan, Ring_buffer_free (rb t), Bpf_destroy (obj t)],
                           t\<lparr>stopChan := Chan_closed\<rparr>))"
  using assms by (simp add: Close_def)

theorem C9_witness:
  "stopChan ex_tracer = Chan_open \<and> statsFd ex_tracer \<noteq> 0
   \<and> Close ex_tracer
       = Inr ([Close_stopChan, Syscall_Close (statsFd ex_tracer),
               Ring_buffer_free (rb ex_tracer), Bpf_destroy (obj ex_tracer)],
              ex_tracer\<lparr>stopChan := Chan_closed\<rparr>)
   \<and> stopChan (ex_tracer\<lparr>statsFd := 0\<rparr>) = Chan_open \<and> statsFd (ex_tracer\<lparr>statsFd := 0\<rparr>) = 0
   \<and> Close (ex_tracer\<lparr>statsFd := 0\<rparr>)
       = Inr ([Close_stopChan, Ring_buffer_free (rb (ex_tracer\<lparr>statsFd := 0\<rparr>)),
               Bpf_destroy (obj (ex_tracer\<lparr>statsFd := 0\<rparr>))],
              ex_tracer\<lparr>statsFd := 0, stopChan := Chan_closed\<rparr>)"
proof -
  have h1: "stopChan ex_tracer = Chan_open" by (simp add: ex_tracer_def)
  have n1: "statsFd ex_tracer \<noteq> 0" by (simp add: ex_tracer_def)
  have h2: "stopChan (ex_tracer\<lparr>statsFd := 0\<rparr>) = Chan_open" by (simp add: ex_tracer_def)
  have n2: "statsFd (ex_tracer\<lparr>statsFd := 0\<rparr>) = 0" by simp
  from C9_Close_order [OF h1] n1
  have a: "Close ex_tracer
       = Inr ([Close_stopChan, Syscall_Close (statsFd ex_tracer),
               Ring_buffer_free (rb ex_tracer), Bpf_destroy (obj ex_tracer)],
              ex_tracer\<lparr>stopChan := Chan_closed\<rparr>)"
    by blast
  from C9_Close_order [OF h2] n2
  have b: "Close (ex_tracer\<lparr>statsFd := 0\<rparr>)
       = Inr ([Close_stopChan, Ring_buffer_free (rb (ex_tracer\<lparr>statsFd := 0\<rparr>)),
               Bpf_destroy (obj (ex_tracer\<lparr>statsFd := 0\<rparr>))],
              ex_tracer\<lparr>statsFd := 0, stopChan := Chan_closed\<rparr>)"
    by blast
  from h1 n1 a h2 n2 b show ?thesis by blast
qed

text \<open>
  C9 as it is stated fails: on a tracer with the descriptor 7, \<^verbatim>\<open>Close\<close> closes the
  descriptor first, before the ring buffer is freed and the BPF object destroyed.
\<close>

theorem C9_counterexample:
  "Close ex_tracer
     = Inr ([Close_stopChan, Syscall_Close 7, Ring_buffer_free 0x20, Bpf_destroy 0x10],
            ex_tracer\<lparr>stopChan := Chan_closed\<rparr>)
   \<and> precedes (Syscall_Close 7) (Ring_buffer_free 0x20)
       [Close_stopChan, Syscall_Close 7, Ring_buffer_free 0x20, Bpf_destroy 0x10]
   \<and> \<not> precedes (Bpf_destroy 0x10) (Syscall_Close 7)
       [Close_stopChan, Syscall_Close 7, Ring_buffer_free 0x20, Bpf_destroy 0x10]"
  by (simp add: Close_def ex_tracer_def)

end
